theory Spec2Isabelle
  imports Complex_Main "HOL-Library.AList" "HOL-Library.Sublist" "HOL-Library.Log_Nat"
begin

section \<open>Storefront demo: checkout pricing, cart mutations, catalog queries\<close>

text \<open>
  The development embeds the logic of three view components of the storefront:
  the \<^verbatim>\<open>ShoppingCart\<close> component (derived amounts, quantity updates, coupon
  application, the checkout steps), the \<^verbatim>\<open>ProductCatalog\<close> component (the
  \<^verbatim>\<open>computed\<close> query result, the add-to-cart gate, the compare set) and the
  \<^verbatim>\<open>Page\<close> component (its own add-to-cart handler).

  Conventions of the embedding.
  \<^item> A JavaScript \<^verbatim>\<open>number\<close> that holds an amount of money (a price, a cost, a
    rate, a coupon value) is a binary64 floating-point number, given by its exact value
    in \<^typ>\<open>rat\<close>; every arithmetic operation of the source rounds its exact result to
    the nearest such number (section Numbers). \<^verbatim>\<open>NaN\<close>, the infinities, the sign
    of zero and results of magnitude \<open>2^1024\<close> or more are not modelled.
  \<^item> A \<^verbatim>\<open>number\<close> that holds a count or an index (a quantity, a stock, an
    inventory count, a page, a page size) is an \<^typ>\<open>int\<close>; counts are taken to be
    below \<open>2^53\<close> in magnitude, where every integer is a binary64 number.
  \<^item> An optional field \<^verbatim>\<open>f?: T\<close> is a field of type \<open>T option\<close>; a state of type
    \<^verbatim>\<open>T | null\<close> likewise.
  \<^item> Field names that several TypeScript types share (\<^verbatim>\<open>id\<close>, \<^verbatim>\<open>name\<close>,
    \<^verbatim>\<open>price\<close>, \<^verbatim>\<open>label\<close>, ...) carry the name of their type as a prefix.
  \<^item> A handler that calls \<^verbatim>\<open>toast\<close> returns the notices it raises next to the
    new state.
\<close>

subsection \<open>Numbers\<close>

text \<open>
  A positive binary64 number is \<open>m * 2^e\<close> with an integer \<open>m\<close> below \<open>2^53\<close> and
  \<open>e\<close> at least \<open>-1074\<close>. \<open>ilog2 x\<close> is the integer part of the binary logarithm of a
  positive rational, from the bit lengths of its numerator and denominator.
\<close>

definition ilog2 :: "rat \<Rightarrow> int" where
  "ilog2 x =
     (case quotient_of x of
        (p, q) \<Rightarrow> let k = bitlen p - bitlen q in if 2 powi k \<le> x then k else k - 1)"

text \<open>The nearest integer, the even one of two that are equally near.\<close>

definition roundHalfEven :: "rat \<Rightarrow> int" where
  "roundHalfEven y =
     (let f = \<lfloor>y\<rfloor>; r = y - of_int f
      in if r < 1 / 2 then f else if 1 / 2 < r then f + 1 else if even f then f else f + 1)"

text \<open>
  \<open>fl x\<close> is the binary64 number nearest to \<open>x\<close>, ties to the even significand: the
  rounding of every arithmetic operation and of the conversion of a decimal numeral.
  Below \<open>2^-1022\<close> the spacing of the numbers stays \<open>2^-1074\<close>.
\<close>

definition fl :: "rat \<Rightarrow> rat" where
  "fl x =
     (if x = 0 then 0
      else (let a = \<bar>x\<bar>;
                e = max (ilog2 a - 52) (- 1074);
                m = roundHalfEven (a / 2 powi e)
            in sgn x * of_int m * 2 powi e))"

text \<open>
  The operators \<^verbatim>\<open>+\<close>, \<^verbatim>\<open>-\<close>, \<^verbatim>\<open>*\<close> and \<^verbatim>\<open>/\<close> on numbers. The only
  division of the source is by the constant 100; a division by zero is not modelled.
\<close>

definition fadd :: "rat \<Rightarrow> rat \<Rightarrow> rat" where
  "fadd x y = fl (x + y)"

definition fsub :: "rat \<Rightarrow> rat \<Rightarrow> rat" where
  "fsub x y = fl (x - y)"

definition fmul :: "rat \<Rightarrow> rat \<Rightarrow> rat" where
  "fmul x y = fl (x * y)"

definition fdiv :: "rat \<Rightarrow> rat \<Rightarrow> rat" where
  "fdiv x y = fl (x / y)"

text \<open>
  \<^verbatim>\<open>+(x).toFixed(2)\<close>. For \<open>x\<close> below \<open>10^21\<close>, \<^verbatim>\<open>toFixed(2)\<close> writes \<open>n / 100\<close>
  for the integer \<open>n\<close> for which \<open>n / 100\<close> is nearest to the exact value of \<open>x\<close>, the
  larger \<open>n\<close> of two that are equally near, and the unary plus converts the decimal numeral
  back to a number; from \<open>10^21\<close> on, the numeral written denotes \<open>x\<close> itself. A negative
  \<open>x\<close> is negated first and the sign put back.
\<close>

definition toFixed2 :: "rat \<Rightarrow> rat" where
  "toFixed2 x = (if 10 ^ 21 \<le> x then x else fl (of_int \<lfloor>x * 100 + 1 / 2\<rfloor> / 100))"

definition round2 :: "rat \<Rightarrow> rat" where
  "round2 x = (if x < 0 then - toFixed2 (- x) else toFixed2 x)"

subsection \<open>Strings\<close>

text \<open>
  \<^verbatim>\<open>String.prototype.trim\<close>, \<^verbatim>\<open>toUpperCase\<close> and \<^verbatim>\<open>toLowerCase\<close> on
  ASCII strings: the white space removed is tab, line feed, vertical tab, form feed,
  carriage return and space, and the letters a to z and A to Z change case. JavaScript
  also removes other Unicode white space (such as U+00A0) and maps letters beyond
  ASCII; on such characters the functions below leave the string as it is.
\<close>

definition isWhiteSpace :: "char \<Rightarrow> bool" where
  "isWhiteSpace c = (c \<in> set [CHR 0x09, CHR 0x0A, CHR 0x0B, CHR 0x0C, CHR 0x0D, CHR '' ''])"

definition trim :: "string \<Rightarrow> string" where
  "trim s = rev (dropWhile isWhiteSpace (rev (dropWhile isWhiteSpace s)))"

definition upperChar :: "char \<Rightarrow> char" where
  "upperChar c =
     (case map_of (zip ''abcdefghijklmnopqrstuvwxyz'' ''ABCDEFGHIJKLMNOPQRSTUVWXYZ'') c of
        Some u \<Rightarrow> u
      | None \<Rightarrow> c)"

definition toUpperCase :: "string \<Rightarrow> string" where
  "toUpperCase s = map upperChar s"

definition lowerChar :: "char \<Rightarrow> char" where
  "lowerChar c =
     (case map_of (zip ''ABCDEFGHIJKLMNOPQRSTUVWXYZ'' ''abcdefghijklmnopqrstuvwxyz'') c of
        Some l \<Rightarrow> l
      | None \<Rightarrow> c)"

definition toLowerCase :: "string \<Rightarrow> string" where
  "toLowerCase s = map lowerChar s"

text \<open>\<^verbatim>\<open>s.includes(q)\<close>: \<open>q\<close> occurs in \<open>s\<close> as a contiguous run.\<close>

definition includes_str :: "string \<Rightarrow> string \<Rightarrow> bool" where
  "includes_str s q = sublist q s"

text \<open>\<^verbatim>\<open>xs.indexOf(x)\<close>: the first position of \<open>x\<close>, or \<open>-1\<close>.\<close>

fun indexOf :: "'a list \<Rightarrow> 'a \<Rightarrow> int" where
  "indexOf [] x = - 1"
| "indexOf (y # ys) x =
     (if y = x then 0 else (let i = indexOf ys x in if i < 0 then - 1 else i + 1))"

text \<open>
  \<^verbatim>\<open>xs.slice(start, end)\<close>: a negative index counts from the end, every index is
  clamped to the array, and an empty range gives the empty array.
\<close>

definition slice :: "'a list \<Rightarrow> int \<Rightarrow> int \<Rightarrow> 'a list" where
  "slice xs start end =
     (let len = int (length xs);
          k = (if start < 0 then max (len + start) 0 else min start len);
          final = (if end < 0 then max (len + end) 0 else min end len)
      in take (nat (final - k)) (drop (nat k) xs))"

subsection \<open>ShoppingCart: data\<close>

record CartItem =
  item_id :: string
  item_name :: string
  item_price :: rat
  item_image :: string
  quantity :: int
  stock :: int
  subtitle :: "string option"

record Address =
  addr_id :: string
  addr_label :: string
  fullName :: string
  line1 :: string
  line2 :: "string option"
  city :: string
  addr_state :: "string option"
  postalCode :: string
  country :: string
  phone :: "string option"
  isDefault :: "bool option"
  addr_email :: "string option"

record ShippingMethod =
  ship_id :: string
  ship_label :: string
  ship_description :: "string option"
  eta :: "string option"
  cost :: rat

record PaymentMethod =
  pay_id :: string
  pay_label :: string
  pay_description :: "string option"

datatype CouponType = percent | fixed | shipping

record Coupon =
  coupon_code :: string
  coupon_type :: CouponType
  coupon_value :: "rat option"

datatype CheckoutStep = Cart | Details | Shipping | Payment | Review | Success

text \<open>The props of the component that the logic reads.\<close>

record props =
  savedAddresses :: "Address list"
  shippingOptions :: "ShippingMethod list"
  paymentMethods :: "PaymentMethod list"
  taxRate :: rat

text \<open>The \<^verbatim>\<open>useState\<close> cells of the component.\<close>

record checkout =
  step :: CheckoutStep
  cart :: "CartItem list"
  couponInput :: string
  appliedCoupon :: "Coupon option"
  selectedShipping :: string
  selectedPayment :: string
  useSavedAddressId :: string
  guestCheckout :: bool
  contactEmail :: string
  orderNote :: string
  address :: Address
  isPlacingOrder :: bool

text \<open>
  The notices a handler raises through \<^verbatim>\<open>toast\<close>, one constructor for each message:
  \<^verbatim>\<open>Only ${item.stock} left in stock for ${item.name}\<close>, \<^verbatim>\<open>Item removed\<close>,
  \<^verbatim>\<open>Coupon not recognized\<close>, \<^verbatim>\<open>Coupon applied: ${found.code}\<close>,
  \<^verbatim>\<open>Out of stock\<close>, \<^verbatim>\<open>Added to cart\<close> and
  \<^verbatim>\<open>You can compare up to 4 products\<close>.
\<close>

datatype notice =
    OnlyLeftInStock int string
  | ItemRemoved
  | CouponNotRecognized
  | CouponApplied string
  | OutOfStock
  | AddedToCart
  | CompareLimit

definition DEFAULT_SHIPPING :: "ShippingMethod list" where
  "DEFAULT_SHIPPING =
    [\<lparr>ship_id = ''standard'', ship_label = ''Standard'',
      ship_description = Some ''3-5 business days'', eta = Some ''Arrives in 3-5 days'', cost = 6\<rparr>,
     \<lparr>ship_id = ''express'', ship_label = ''Express'',
      ship_description = Some ''1-2 business days'', eta = Some ''Arrives in 1-2 days'', cost = 18\<rparr>,
     \<lparr>ship_id = ''pickup'', ship_label = ''Store Pickup'',
      ship_description = Some ''Ready today'', eta = Some ''Pickup today'', cost = 0\<rparr>]"

definition DEFAULT_ITEMS :: "CartItem list" where
  "DEFAULT_ITEMS =
    [\<lparr>item_id = ''sku-1'', item_name = ''Bridge Tee'', item_price = 28,
      item_image = ''https://images.unsplash.com/photo-1541099649105-f69ad21f3246?q=80&w=1200&auto=format&fit=crop'',
      quantity = 1, stock = 8, subtitle = Some ''Midweight, 100% cotton''\<rparr>,
     \<lparr>item_id = ''sku-2'', item_name = ''Everyday Tote'', item_price = 52,
      item_image = ''https://images.unsplash.com/photo-1587397845856-e6cf49176c70?q=80&w=1200&auto=format&fit=crop'',
      quantity = 1, stock = 5, subtitle = Some ''Recycled canvas''\<rparr>]"

definition COUPONS :: "Coupon list" where
  "COUPONS =
    [\<lparr>coupon_code = ''SAVE10'', coupon_type = percent, coupon_value = Some 10\<rparr>,
     \<lparr>coupon_code = ''WELCOME15'', coupon_type = percent, coupon_value = Some 15\<rparr>,
     \<lparr>coupon_code = ''TAKE5'', coupon_type = fixed, coupon_value = Some 5\<rparr>,
     \<lparr>coupon_code = ''FREESHIP'', coupon_type = shipping, coupon_value = None\<rparr>]"

text \<open>\<^verbatim>\<open>COUPONS.find((c) => c.code === code)\<close>\<close>

definition lookupCoupon :: "string \<Rightarrow> Coupon option" where
  "lookupCoupon code = find (\<lambda>c. coupon_code c = code) COUPONS"

subsection \<open>ShoppingCart: derived amounts\<close>

text \<open>The truthiness of an optional number: defined and not zero.\<close>

definition truthy :: "rat option \<Rightarrow> bool" where
  "truthy v = (case v of None \<Rightarrow> False | Some x \<Rightarrow> x \<noteq> 0)"

definition subtotal :: "CartItem list \<Rightarrow> rat" where
  "subtotal items =
     foldl (\<lambda>acc item. fadd acc (fmul (item_price item) (of_int (quantity item)))) 0 items"

text \<open>\<^verbatim>\<open>shippingOptions.find((m) => m.id === selectedShipping) ?? shippingOptions[0]\<close>\<close>

definition selectedShippingMethod :: "ShippingMethod list \<Rightarrow> string \<Rightarrow> ShippingMethod option" where
  "selectedShippingMethod options sel =
     (case find (\<lambda>m. ship_id m = sel) options of
        Some m \<Rightarrow> Some m
      | None \<Rightarrow> (case options of [] \<Rightarrow> None | m # _ \<Rightarrow> Some m))"

definition shippingCost :: "ShippingMethod list \<Rightarrow> string \<Rightarrow> Coupon option \<Rightarrow> rat" where
  "shippingCost options sel coupon =
     (case selectedShippingMethod options sel of
        None \<Rightarrow> 0
      | Some method \<Rightarrow>
          if map_option coupon_type coupon = Some shipping then 0
          else cost method)"

definition discount :: "Coupon option \<Rightarrow> rat \<Rightarrow> rat" where
  "discount coupon sub =
     (case coupon of
        None \<Rightarrow> 0
      | Some c \<Rightarrow>
          if coupon_type c = percent \<and> truthy (coupon_value c)
          then fdiv (fmul sub (case coupon_value c of Some v \<Rightarrow> v | None \<Rightarrow> 0)) 100
          else if coupon_type c = fixed \<and> truthy (coupon_value c)
          then min (case coupon_value c of Some v \<Rightarrow> v | None \<Rightarrow> 0) sub
          else 0)"

definition taxedSubtotal :: "rat \<Rightarrow> rat \<Rightarrow> rat" where
  "taxedSubtotal sub disc = max (fsub sub disc) 0"

definition tax :: "rat \<Rightarrow> rat \<Rightarrow> rat" where
  "tax taxed rate = round2 (fmul taxed rate)"

definition total_amount :: "rat \<Rightarrow> rat \<Rightarrow> rat \<Rightarrow> rat" where
  "total_amount taxed tx ship = round2 (fadd (fadd taxed tx) ship)"

text \<open>
  The amounts of one render, in the order of the component's \<^verbatim>\<open>useMemo\<close> cells,
  from the values the cells depend on: the cart, the applied coupon, the shipping
  options, the selected shipping id and the tax rate.
\<close>

record amounts =
  a_subtotal :: rat
  a_shippingCost :: rat
  a_discount :: rat
  a_taxedSubtotal :: rat
  a_tax :: rat
  a_total :: rat

definition derive ::
  "CartItem list \<Rightarrow> Coupon option \<Rightarrow> ShippingMethod list \<Rightarrow> string \<Rightarrow> rat \<Rightarrow> amounts" where
  "derive items coupon options sel rate =
     (let sub = subtotal items;
          ship = shippingCost options sel coupon;
          disc = discount coupon sub;
          taxed = taxedSubtotal sub disc;
          tx = tax taxed rate;
          tot = total_amount taxed tx ship
      in \<lparr>a_subtotal = sub, a_shippingCost = ship, a_discount = disc,
          a_taxedSubtotal = taxed, a_tax = tx, a_total = tot\<rparr>)"

subsection \<open>ShoppingCart: cart and coupon handlers\<close>

definition validateQty :: "CartItem \<Rightarrow> int \<Rightarrow> bool \<times> notice list" where
  "validateQty item nextQty =
     (if nextQty < 1 then (True, [])
      else if nextQty > stock item then (False, [OnlyLeftInStock (stock item) (item_name item)])
      else (True, []))"

text \<open>
  \<^verbatim>\<open>updateQty\<close> maps over the cart; the notices of the calls of
  \<^verbatim>\<open>validateQty\<close> are collected from left to right.
\<close>

fun updateQty :: "string \<Rightarrow> int \<Rightarrow> CartItem list \<Rightarrow> CartItem list \<times> notice list" where
  "updateQty i nextQty [] = ([], [])"
| "updateQty i nextQty (it # rest) =
     (let (it', ns) =
            (if item_id it \<noteq> i then (it, [])
             else (case validateQty it nextQty of
                     (ok, ns) \<Rightarrow> if \<not> ok then (it, ns) else (it\<lparr>quantity := nextQty\<rparr>, ns)));
          (rest', ns') = updateQty i nextQty rest
      in (it' # rest', ns @ ns'))"

definition removeItem :: "string \<Rightarrow> CartItem list \<Rightarrow> CartItem list \<times> notice list" where
  "removeItem i prev = (filter (\<lambda>it. item_id it \<noteq> i) prev, [ItemRemoved])"

definition applyCoupon :: "checkout \<Rightarrow> checkout \<times> notice list" where
  "applyCoupon s =
     (let code = toUpperCase (trim (couponInput s))
      in if code = [] then (s, [])
         else (case lookupCoupon code of
                 None \<Rightarrow> (s, [CouponNotRecognized])
               | Some found \<Rightarrow>
                   (s\<lparr>appliedCoupon := Some found\<rparr>, [CouponApplied (coupon_code found)])))"

definition clearCoupon :: "checkout \<Rightarrow> checkout" where
  "clearCoupon s = s\<lparr>appliedCoupon := None, couponInput := []\<rparr>"

subsection \<open>ShoppingCart: the checkout steps\<close>

definition canProceedFromCart :: "checkout \<Rightarrow> bool" where
  "canProceedFromCart s = (cart s \<noteq> [])"

definition canProceedFromDetails :: "props \<Rightarrow> checkout \<Rightarrow> bool" where
  "canProceedFromDetails P s =
     ((if guestCheckout s then contactEmail s \<noteq> [] else True) \<and>
      (if useSavedAddressId s \<noteq> ''new''
       then find (\<lambda>a. addr_id a = useSavedAddressId s) (savedAddresses P) \<noteq> None
       else fullName (address s) \<noteq> [] \<and> line1 (address s) \<noteq> [] \<and> city (address s) \<noteq> [] \<and>
            postalCode (address s) \<noteq> [] \<and> country (address s) \<noteq> []))"

definition canProceedFromShipping :: "checkout \<Rightarrow> bool" where
  "canProceedFromShipping s = (selectedShipping s \<noteq> [])"

definition canProceedFromPayment :: "checkout \<Rightarrow> bool" where
  "canProceedFromPayment s = (selectedPayment s \<noteq> [])"

definition step_order :: "CheckoutStep list" where
  "step_order = [Cart, Details, Shipping, Payment, Review, Success]"

definition goBack :: "checkout \<Rightarrow> checkout" where
  "goBack s =
     (let idx = indexOf step_order (step s)
      in if idx > 0 then s\<lparr>step := step_order ! nat (idx - 1)\<rparr> else s)"

text \<open>
  \<^verbatim>\<open>handlePlaceOrder\<close> is asynchronous: it raises the \<^verbatim>\<open>isPlacingOrder\<close> flag,
  waits, and then moves to the last step, lowers the flag and empties the cart. The two
  halves are two functions; the order object handed to \<^verbatim>\<open>onOrderComplete\<close> is not
  part of the state and is left out.
\<close>

definition handlePlaceOrder_begin :: "checkout \<Rightarrow> checkout" where
  "handlePlaceOrder_begin s = s\<lparr>isPlacingOrder := True\<rparr>"

definition handlePlaceOrder_resume :: "checkout \<Rightarrow> checkout" where
  "handlePlaceOrder_resume s = s\<lparr>step := Success, isPlacingOrder := False, cart := []\<rparr>"

text \<open>
  Rendering. The component renders its header, the stepper and the component of the
  current step. A JSX element \<^verbatim>\<open><Name ... />\<close> evaluates the identifier
  \<^verbatim>\<open>Name\<close>; an identifier that the module neither imports nor declares throws a
  \<^verbatim>\<open>ReferenceError\<close>, and a render that throws mounts nothing. \<open>module_scope\<close>
  lists the identifiers of the module that JSX elements may name: the imports of the
  first lines and the components declared in the body. \<open>elements\<close> lists the names of
  the JSX elements written for a step, and \<open>controls\<close> the controls among them that
  change the step or the placing flag.
\<close>

definition module_scope :: "string list" where
  "module_scope =
    [''ShoppingCartIcon'', ''ShoppingBag'', ''CircleCheckBig'', ''CircleChevronLeft'',
     ''WalletMinimal'', ''PackageCheck'', ''TicketMinus'', ''History'',
     ''Button'', ''Input'', ''Label'', ''Card'', ''CardContent'', ''CardHeader'', ''CardTitle'',
     ''Separator'', ''Textarea'', ''RadioGroup'', ''RadioGroupItem'', ''Switch'',
     ''Stepper'', ''Summary'', ''CartStep'', ''DetailsStep'', ''ShippingStep'', ''PaymentStep'',
     ''ReviewStep'', ''SuccessStep'']"

definition elements :: "CheckoutStep \<Rightarrow> string list" where
  "elements st =
     (if st = Cart then [''ShoppingCartIcon''] else [''ShoppingBag'']) @
     [''Stepper'', ''CircleCheckBig''] @
     (case st of
        Cart \<Rightarrow>
          [''CartStep'', ''Card'', ''CardHeader'', ''CardTitle'', ''ShoppingCartIcon'', ''CardContent'',
           ''Label'', ''Input'', ''Button'', ''TicketMinus'', ''Summary'', ''History'']
      | Details \<Rightarrow>
          [''DetailsStep'', ''Card'', ''CardHeader'', ''CardTitle'', ''CardContent'', ''Switch'',
           ''Label'', ''Input'', ''RadioGroup'', ''RadioGroupItem'', ''Textarea'', ''Summary'',
           ''Button'', ''CircleChevronLeft'']
      | Shipping \<Rightarrow>
          [''ShippingStep'', ''Card'', ''CardHeader'', ''CardTitle'', ''CardContent'', ''RadioGroup'',
           ''RadioGroupItem'', ''Summary'', ''Button'', ''CircleChevronLeft'']
      | Payment \<Rightarrow>
          [''PaymentStep'', ''Card'', ''CardHeader'', ''CardTitle'', ''CardContent'', ''RadioGroup'',
           ''RadioGroupItem'', ''Label'', ''Input'', ''WalletMinimal'', ''PackageCheck'', ''Summary'',
           ''Button'', ''CircleChevronLeft'']
      | Review \<Rightarrow>
          [''ReviewStep'', ''Card'', ''CardHeader'', ''CardTitle'', ''CardContent'', ''Separator'',
           ''Summary'', ''Button'', ''CircleChevronLeft'']
      | Success \<Rightarrow>
          [''SuccessStep'', ''CircleCheckBig'', ''ShoppingBag'', ''Card'', ''CardHeader'', ''CardTitle'',
           ''CardContent'', ''PackageCheck'', ''WalletMinimal'', ''Button'', ''ShoppingBasket''])"

datatype control =
    CheckoutButton
  | BackButton
  | ContinueToShipping
  | ContinueToPayment
  | ReviewOrder
  | PlaceOrder
  | ContinueShopping

definition controls :: "CheckoutStep \<Rightarrow> control list" where
  "controls st =
     (case st of
        Cart \<Rightarrow> [CheckoutButton]
      | Details \<Rightarrow> [BackButton, ContinueToShipping]
      | Shipping \<Rightarrow> [BackButton, ContinueToPayment]
      | Payment \<Rightarrow> [BackButton, ReviewOrder]
      | Review \<Rightarrow> [BackButton, PlaceOrder]
      | Success \<Rightarrow> [ContinueShopping])"

datatype render_error = ReferenceError string

definition render :: "CheckoutStep \<Rightarrow> render_error + control list" where
  "render st =
     (case find (\<lambda>n. n \<notin> set module_scope) (elements st) of
        Some n \<Rightarrow> Inl (ReferenceError n)
      | None \<Rightarrow> Inr (controls st))"

text \<open>
  The \<^verbatim>\<open>onClick\<close> handler of a control, \<open>None\<close> when the control is
  \<^verbatim>\<open>disabled\<close>.
\<close>

definition click :: "props \<Rightarrow> control \<Rightarrow> checkout \<Rightarrow> checkout option" where
  "click P c s =
     (case c of
        CheckoutButton \<Rightarrow> if \<not> canProceedFromCart s then None else Some (s\<lparr>step := Details\<rparr>)
      | BackButton \<Rightarrow> Some (goBack s)
      | ContinueToShipping \<Rightarrow>
          if \<not> canProceedFromDetails P s then None else Some (s\<lparr>step := Shipping\<rparr>)
      | ContinueToPayment \<Rightarrow>
          if \<not> canProceedFromShipping s then None else Some (s\<lparr>step := Payment\<rparr>)
      | ReviewOrder \<Rightarrow>
          if \<not> canProceedFromPayment s then None else Some (s\<lparr>step := Review\<rparr>)
      | PlaceOrder \<Rightarrow>
          if isPlacingOrder s \<or> cart s = [] then None else Some (handlePlaceOrder_begin s)
      | ContinueShopping \<Rightarrow> Some (s\<lparr>step := Cart\<rparr>))"

text \<open>
  The transitions of the component: a click on a control that the current step has
  rendered and that is not disabled; the resumption of a pending
  \<^verbatim>\<open>handlePlaceOrder\<close>; and, under the rule \<open>edit\<close>, the other controls a rendered
  step offers (quantity fields, coupon field, address form, radio groups), which leave
  the step and the flag as they are and may change any other cell.
\<close>

inductive transition :: "props \<Rightarrow> checkout \<Rightarrow> checkout \<Rightarrow> bool" for P :: props where
  press:
    "render (step s) = Inr cs \<Longrightarrow> c \<in> set cs \<Longrightarrow> click P c s = Some s' \<Longrightarrow> transition P s s'"
| order_placed:
    "isPlacingOrder s \<Longrightarrow> transition P s (handlePlaceOrder_resume s)"
| edit:
    "render (step s) = Inr cs \<Longrightarrow> step s' = step s \<Longrightarrow> isPlacingOrder s' = isPlacingOrder s \<Longrightarrow>
     transition P s s'"

text \<open>
  A state is reachable when transitions lead to it from a state the component can start
  in: any step and any cells (they are read back from local storage), with no order
  being placed.
\<close>

inductive reachable :: "props \<Rightarrow> checkout \<Rightarrow> bool" for P :: props where
  start: "\<not> isPlacingOrder s \<Longrightarrow> reachable P s"
| move: "reachable P s \<Longrightarrow> transition P s s' \<Longrightarrow> reachable P s'"

subsection \<open>ProductCatalog\<close>

record CatalogProduct =
  prod_id :: string
  prod_name :: string
  prod_price :: rat
  prod_image :: "string option"
  category :: "string option"
  sku :: "string option"
  brand :: "string option"
  rating :: "rat option"
  reviewsCount :: "int option"
  inStock :: "bool option"
  inventoryCount :: "int option"
  description :: "string option"

datatype SortOption = relevance | price_asc | price_desc | name_asc | name_desc | newest

text \<open>
  The cells of the catalog that the query reads. The objects \<^verbatim>\<open>wishlist\<close> and
  \<^verbatim>\<open>compare\<close> of type \<^verbatim>\<open>Record<string, boolean>\<close> are association lists in
  the order of insertion of their keys.
\<close>

record catalog =
  query :: string
  activeCategory :: string
  sort_option :: SortOption
  pageSize :: int
  page :: int
  onlyInStock :: bool
  onlyWishlist :: bool
  wishlist :: "(string \<times> bool) list"

record computed_result =
  r_total :: int
  r_totalPages :: int
  r_currentPage :: int
  r_items :: "CatalogProduct list"

definition matchesQuery :: "string \<Rightarrow> CatalogProduct \<Rightarrow> bool" where
  "matchesQuery q p =
     (includes_str (toLowerCase (prod_name p)) q \<or>
      (case brand p of Some b \<Rightarrow> b \<noteq> [] \<and> includes_str (toLowerCase b) q | None \<Rightarrow> False) \<or>
      (case sku p of Some k \<Rightarrow> k \<noteq> [] \<and> includes_str (toLowerCase k) q | None \<Rightarrow> False))"

text \<open>The test of the in-stock-only filter.\<close>

definition inStockFilter :: "CatalogProduct \<Rightarrow> bool" where
  "inStockFilter p =
     (inStock p \<noteq> Some False \<and> (case inventoryCount p of Some n \<Rightarrow> n | None \<Rightarrow> 1) > 0)"

text \<open>
  \<^verbatim>\<open>Array.prototype.sort\<close> is stable. With a comparator \<^verbatim>\<open>key(a) - key(b)\<close> it
  is the stable sort by ascending key, \<^const>\<open>sort_key\<close>; with the arguments swapped it
  is the stable sort by descending key.
\<close>

definition sort_key_desc :: "('a \<Rightarrow> 'k::linorder) \<Rightarrow> 'a list \<Rightarrow> 'a list" where
  "sort_key_desc f xs = rev (sort_key f (rev xs))"

text \<open>
  \<^verbatim>\<open>computed\<close>, in two parts: the list after the filters and the sort, and the
  page cut from it. The collation of \<^verbatim>\<open>localeCompare\<close> depends on the host's
  locale and is a parameter: \<open>localeKey\<close> maps a string to its collation key, and
  \<^verbatim>\<open>a.localeCompare(b)\<close> compares the keys. A page size of zero makes the
  component compute a page count that is not a finite number; the result is \<open>None\<close>
  there.
\<close>

definition catalog_list ::
  "(string \<Rightarrow> 'k::linorder) \<Rightarrow> CatalogProduct list \<Rightarrow> catalog \<Rightarrow> CatalogProduct list" where
  "catalog_list localeKey products c =
     (let list0 = products;
          list1 = (if trim (query c) \<noteq> []
                   then filter (matchesQuery (toLowerCase (query c))) list0 else list0);
          list2 = (if activeCategory c \<noteq> ''all''
                   then filter (\<lambda>p. (case category p of Some x \<Rightarrow> x | None \<Rightarrow> []) = activeCategory c) list1
                   else list1);
          list3 = (if onlyInStock c then filter inStockFilter list2 else list2);
          list4 = (if onlyWishlist c
                   then filter (\<lambda>p. map_of (wishlist c) (prod_id p) = Some True) list3
                   else list3)
      in case sort_option c of
           price_asc \<Rightarrow> sort_key prod_price list4
         | price_desc \<Rightarrow> sort_key_desc prod_price list4
         | name_asc \<Rightarrow> sort_key (\<lambda>p. localeKey (prod_name p)) list4
         | name_desc \<Rightarrow> sort_key_desc (\<lambda>p. localeKey (prod_name p)) list4
         | newest \<Rightarrow> sort_key_desc (\<lambda>p. localeKey (prod_id p)) list4
         | relevance \<Rightarrow> list4)"

definition computed ::
  "(string \<Rightarrow> 'k::linorder) \<Rightarrow> CatalogProduct list \<Rightarrow> catalog \<Rightarrow> computed_result option" where
  "computed localeKey products c =
     (let list = catalog_list localeKey products c
      in if pageSize c = 0 then None
         else
           (let total = int (length list);
                totalPages = max 1 \<lceil>(of_int total :: rat) / of_int (pageSize c)\<rceil>;
                currentPage = min (page c) totalPages;
                start = (currentPage - 1) * pageSize c;
                end = start + pageSize c
            in Some \<lparr>r_total = total, r_totalPages = totalPages, r_currentPage = currentPage,
                      r_items = slice list start end\<rparr>))"

text \<open>
  The controls that set the remembered page. The pagination bar is rendered when there
  is more than one page: Prev and Next (guarded by \<^verbatim>\<open>canPrev\<close> and
  \<^verbatim>\<open>canNext\<close>), a button for each of the first five pages, and a button for the
  last page when there are more than five. Every change of a filter, of the sort or of
  the page size sets the page to 1.
\<close>

datatype page_control = Prev | Next | PageButton nat | LastPage

definition page_click ::
  "(string \<Rightarrow> 'k::linorder) \<Rightarrow> CatalogProduct list \<Rightarrow> page_control \<Rightarrow> catalog \<Rightarrow> catalog" where
  "page_click localeKey products ctl c =
     (case computed localeKey products c of
        None \<Rightarrow> c
      | Some r \<Rightarrow>
          if \<not> r_totalPages r > 1 then c
          else (case ctl of
                  Prev \<Rightarrow> if r_currentPage r > 1 then c\<lparr>page := page c - 1\<rparr> else c
                | Next \<Rightarrow> if r_currentPage r < r_totalPages r then c\<lparr>page := page c + 1\<rparr> else c
                | PageButton idx \<Rightarrow>
                    if int idx < min (r_totalPages r) 5 then c\<lparr>page := int idx + 1\<rparr> else c
                | LastPage \<Rightarrow> if r_totalPages r > 5 then c\<lparr>page := r_totalPages r\<rparr> else c))"

text \<open>
  The add-to-cart gate of the catalog. The result is the notice raised and the product
  handed to \<^verbatim>\<open>onAddToCart\<close>, if any; the callback is taken to be supplied and to
  resolve.
\<close>

definition catalog_handleAddToCart :: "CatalogProduct \<Rightarrow> notice list \<times> CatalogProduct option" where
  "catalog_handleAddToCart p =
     (if inStock p = Some False \<or> (case inventoryCount p of Some n \<Rightarrow> n | None \<Rightarrow> 0) \<le> 0
      then ([OutOfStock], None)
      else ([AddedToCart], Some p))"

text \<open>
  The availability predicate in the words of the specification,
  \<^verbatim>\<open>inStock !== false && inventoryCount > 0\<close>; a comparison with an absent count is
  false.
\<close>

definition availability_spec :: "CatalogProduct \<Rightarrow> bool" where
  "availability_spec p =
     (inStock p \<noteq> Some False \<and> (case inventoryCount p of Some n \<Rightarrow> n > 0 | None \<Rightarrow> False))"

text \<open>
  \<^verbatim>\<open>compareIds\<close>: \<^verbatim>\<open>Object.keys(compare).filter((k) => compare[k])\<close>, and
  \<^verbatim>\<open>toggleCompare\<close>, the updater given to \<^verbatim>\<open>setCompare\<close>. The object is
  read through its own properties only: an id that names a member of
  \<^verbatim>\<open>Object.prototype\<close> (such as \<^verbatim>\<open>constructor\<close>) is outside the model, and
  so is the place of integer-like keys in the order of \<^verbatim>\<open>Object.keys\<close>.
\<close>

definition compareIds :: "(string \<times> bool) list \<Rightarrow> string list" where
  "compareIds cmp = filter (\<lambda>k. map_of cmp k = Some True) (map fst cmp)"

definition toggleCompare :: "string \<Rightarrow> (string \<times> bool) list \<Rightarrow> (string \<times> bool) list \<times> notice list" where
  "toggleCompare i prev =
     (let nextVal = \<not> (map_of prev i = Some True);
          next = AList.update i nextVal prev;
          active = filter (\<lambda>k. map_of next k = Some True) (map fst next)
      in if length active > 4 then (prev, [CompareLimit]) else (next, []))"

text \<open>The compare set after a sequence of toggles, starting from the empty object.\<close>

definition toggles :: "string list \<Rightarrow> (string \<times> bool) list" where
  "toggles ids = foldl (\<lambda>cmp i. fst (toggleCompare i cmp)) [] ids"

subsection \<open>Page\<close>

definition FALLBACK_IMG :: string where
  "FALLBACK_IMG = ''https://images.unsplash.com/photo-1517336714731-489689fd1ca8?q=80&w=1600&auto=format&fit=crop''"

text \<open>
  The add-to-cart handler of the page, the updater given to \<^verbatim>\<open>setCart\<close>. The
  field \<^verbatim>\<open>stock\<close> of a cart item is always present, so the last default of
  \<^verbatim>\<open>p.inventoryCount ?? existing.stock ?? 1\<close> is never taken.
\<close>

definition page_handleAddToCart :: "CatalogProduct \<Rightarrow> CartItem list \<Rightarrow> CartItem list" where
  "page_handleAddToCart p prev =
     (case find (\<lambda>i. item_id i = prod_id p) prev of
        Some existing \<Rightarrow>
          (let nextQty = quantity existing + 1;
               stock' = (case inventoryCount p of Some n \<Rightarrow> n | None \<Rightarrow> stock existing)
           in map (\<lambda>i. if item_id i = prod_id p then i\<lparr>quantity := min nextQty stock'\<rparr> else i) prev)
      | None \<Rightarrow>
          prev @
          [\<lparr>item_id = prod_id p, item_name = prod_name p, item_price = prod_price p,
            item_image = (case prod_image p of
                            Some img \<Rightarrow> if img \<noteq> [] then img else FALLBACK_IMG
                          | None \<Rightarrow> FALLBACK_IMG),
            quantity = 1,
            stock = (case inventoryCount p of Some n \<Rightarrow> n | None \<Rightarrow> 10),
            subtitle = brand p\<rparr>])"

text \<open>
  The cart of the page after a sequence of adds: it starts empty, and the only other
  assignment to it empties it again.
\<close>

definition page_adds :: "CatalogProduct list \<Rightarrow> CartItem list" where
  "page_adds ps = foldl (\<lambda>prev p. page_handleAddToCart p prev) [] ps"

subsection \<open>Inputs used in examples\<close>

text \<open>
  The state the component starts in under the default props: the initial values of its
  \<^verbatim>\<open>useState\<close> cells.
\<close>

definition initial_checkout :: checkout where
  "initial_checkout =
     \<lparr>step = Cart, cart = DEFAULT_ITEMS, couponInput = [], appliedCoupon = None,
      selectedShipping = ''standard'', selectedPayment = ''card'', useSavedAddressId = ''new'',
      guestCheckout = True, contactEmail = [], orderNote = [],
      address = \<lparr>addr_id = ''new'', addr_label = ''New address'', fullName = [], line1 = [],
                  line2 = Some [], city = [], addr_state = Some [], postalCode = [], country = [],
                  phone = Some [], isDefault = None, addr_email = Some []\<rparr>,
      isPlacingOrder = False\<rparr>"

definition default_props :: props where
  "default_props =
     \<lparr>savedAddresses = [], shippingOptions = DEFAULT_SHIPPING,
      paymentMethods =
        [\<lparr>pay_id = ''card'', pay_label = ''Credit/Debit Card'', pay_description = Some ''Visa, Mastercard, Amex''\<rparr>,
         \<lparr>pay_id = ''wallet'', pay_label = ''Wallet'', pay_description = Some ''Apple Pay / Google Pay''\<rparr>,
         \<lparr>pay_id = ''cod'', pay_label = ''Cash on Delivery'', pay_description = Some ''Pay at your doorstep''\<rparr>],
      taxRate = fl (725 / 10000)\<rparr>"

text \<open>A cart holding one item priced 19.99, the binary64 number written so.\<close>

definition cart_1999 :: "CartItem list" where
  "cart_1999 =
    [\<lparr>item_id = ''sku-3'', item_name = ''Cap'', item_price = fl (1999 / 100), item_image = [],
      quantity = 1, stock = 4, subtitle = None\<rparr>]"

text \<open>The state the catalog starts in under the default props.\<close>

definition initial_catalog :: catalog where
  "initial_catalog =
     \<lparr>query = [], activeCategory = ''all'', sort_option = relevance, pageSize = 12, page = 1,
      onlyInStock = False, onlyWishlist = False, wishlist = []\<rparr>"

text \<open>The product list of the page, and a product with no inventory count.\<close>

definition bridge_tee :: CatalogProduct where
  "bridge_tee =
     \<lparr>prod_id = ''p-001'', prod_name = ''Bridge Tee'', prod_price = 28,
      prod_image = Some ''https://images.unsplash.com/photo-1541099649105-f69ad21f3246?q=80&w=1600&auto=format&fit=crop'',
      category = Some ''apparel'', sku = Some ''TEE-001'', brand = Some ''Bridge'', rating = None,
      reviewsCount = None, inStock = Some True, inventoryCount = Some 12,
      description = Some ''Midweight tee in soft cotton with a classic fit.''\<rparr>"

definition everyday_tote :: CatalogProduct where
  "everyday_tote =
     \<lparr>prod_id = ''p-002'', prod_name = ''Everyday Tote'', prod_price = 52,
      prod_image = Some ''https://images.unsplash.com/photo-1587397845856-e6cf49176c70?q=80&w=1600&auto=format&fit=crop'',
      category = Some ''bags'', sku = Some ''TOTE-001'', brand = Some ''Bridge'', rating = None,
      reviewsCount = None, inStock = Some True, inventoryCount = Some 5,
      description = Some ''Recycled canvas tote for daily carry.''\<rparr>"

definition canvas_backpack :: CatalogProduct where
  "canvas_backpack =
     \<lparr>prod_id = ''p-003'', prod_name = ''Canvas Backpack'', prod_price = 895 / 10,
      prod_image = Some ''https://images.unsplash.com/photo-1500530855697-b586d89ba3ee?q=80&w=1600&auto=format&fit=crop'',
      category = Some ''bags'', sku = Some ''PACK-002'', brand = Some ''Bridge'', rating = None,
      reviewsCount = None, inStock = Some True, inventoryCount = Some 3,
      description = Some ''Sturdy backpack with padded laptop compartment.''\<rparr>"

definition merino_socks :: CatalogProduct where
  "merino_socks =
     \<lparr>prod_id = ''p-004'', prod_name = ''Merino Socks (2-pack)'', prod_price = 295 / 10,
      prod_image = Some ''https://images.unsplash.com/photo-1533867617858-e7b97b4b0aea?q=80&w=1600&auto=format&fit=crop'',
      category = Some ''accessories'', sku = Some ''SOCK-002'', brand = Some ''Bridge'', rating = None,
      reviewsCount = None, inStock = Some True, inventoryCount = Some 18,
      description = Some ''Temperature-regulating comfort for all-day wear.''\<rparr>"

definition cotton_hoodie :: CatalogProduct where
  "cotton_hoodie =
     \<lparr>prod_id = ''p-005'', prod_name = ''Brushed Cotton Hoodie'', prod_price = 895 / 10,
      prod_image = Some ''https://images.unsplash.com/photo-1520975682031-a2b2ae8346f9?q=80&w=1600&auto=format&fit=crop'',
      category = Some ''apparel'', sku = Some ''HOOD-001'', brand = Some ''Bridge'', rating = None,
      reviewsCount = None, inStock = Some True, inventoryCount = Some 7,
      description = Some ''Soft brushed interior with a modern silhouette.''\<rparr>"

definition page_products :: "CatalogProduct list" where
  "page_products = [bridge_tee, everyday_tote, canvas_backpack, merino_socks, cotton_hoodie]"

definition gift_card :: CatalogProduct where
  "gift_card =
     \<lparr>prod_id = ''p-006'', prod_name = ''Gift Card'', prod_price = 25, prod_image = None,
      category = Some ''accessories'', sku = None, brand = Some ''Bridge'', rating = None,
      reviewsCount = None, inStock = Some True, inventoryCount = None, description = None\<rparr>"

section \<open>Properties\<close>

subsection \<open>Rounding to binary64\<close>

text \<open>
  Rounding a number that is not negative gives a number that is not negative and at most
  twice as large.
\<close>

lemma roundHalfEven_nonneg: "0 \<le> y \<Longrightarrow> 0 \<le> roundHalfEven y"
  by (auto simp: roundHalfEven_def Let_def)

lemma roundHalfEven_le: "of_int (roundHalfEven y) \<le> y + 1 / 2"
proof -
  have f: "of_int \<lfloor>y\<rfloor> \<le> y" by simp
  show ?thesis
    unfolding roundHalfEven_def Let_def using f by (auto split: if_splits) linarith+
qed

lemma roundHalfEven_small: "0 \<le> y \<Longrightarrow> y < 1 / 2 \<Longrightarrow> roundHalfEven y = 0"
proof -
  assume a: "0 \<le> y" "y < 1 / 2"
  then have "\<lfloor>y\<rfloor> = 0" by (intro floor_unique) auto
  with a show ?thesis by (simp add: roundHalfEven_def)
qed

lemma fl_bounds:
  assumes "0 \<le> x"
  shows "0 \<le> fl x \<and> fl x \<le> 2 * x"
proof (cases "x = 0")
  case True
  then show ?thesis by (simp add: fl_def)
next
  case False
  with assms have pos: "0 < x" by simp
  define e where "e = max (ilog2 x - 52) (- 1074)"
  define P :: rat where "P = 2 powi e"
  define m where "m = roundHalfEven (x / P)"
  have P: "0 < P" by (simp add: P_def)
  have fl: "fl x = of_int m * P"
    using pos by (simp add: fl_def Let_def e_def P_def m_def)
  have y: "0 \<le> x / P" using pos P by simp
  have m0: "0 \<le> m" unfolding m_def using y by (rule roundHalfEven_nonneg)
  have up: "of_int m * P \<le> 2 * x"
  proof (cases "x / P < 1 / 2")
    case True
    then have "m = 0" unfolding m_def using y by (intro roundHalfEven_small)
    then show ?thesis using pos by simp
  next
    case False
    have "of_int m \<le> x / P + 1 / 2" unfolding m_def by (rule roundHalfEven_le)
    also have "\<dots> \<le> 2 * (x / P)" using False by simp
    finally have "of_int m \<le> (2 * x) / P" by simp
    then show ?thesis using P by (simp add: pos_le_divide_eq)
  qed
  from m0 P have "0 \<le> of_int m * P" by simp
  with up show ?thesis by (simp add: fl)
qed

lemma fl_nonneg: "0 \<le> x \<Longrightarrow> 0 \<le> fl x"
  using fl_bounds by blast

lemma fl_le_twice: "0 \<le> x \<Longrightarrow> fl x \<le> 2 * x"
  using fl_bounds by blast

text \<open>
  \<open>ilog2\<close> is the integer part of the binary logarithm: a positive \<open>x\<close> lies between
  \<open>2^(ilog2 x)\<close> and the next power of two.
\<close>

lemma bitlen_powi:
  assumes "0 < p"
  shows "2 powi (bitlen p - 1) \<le> (of_int p :: rat)" and "(of_int p :: rat) < 2 powi bitlen p"
proof -
  from assms have b: "1 \<le> bitlen p" using bitlen_eq_zero_iff [of p] bitlen_nonneg [of p] by linarith
  from bitlen_bounds [OF assms]
  have lo: "2 ^ nat (bitlen p - 1) \<le> p" and hi: "p < 2 ^ nat (bitlen p)" by simp_all
  from lo have "(of_int (2 ^ nat (bitlen p - 1)) :: rat) \<le> of_int p" by (simp only: of_int_le_iff)
  then show "2 powi (bitlen p - 1) \<le> (of_int p :: rat)" using b by (simp add: power_int_def)
  from hi have "(of_int p :: rat) < of_int (2 ^ nat (bitlen p))" by (simp only: of_int_less_iff)
  then show "(of_int p :: rat) < 2 powi bitlen p" using b by (simp add: power_int_def)
qed

lemma ilog2_bounds:
  assumes "0 < x"
  shows "2 powi ilog2 x \<le> x \<and> x < 2 powi (ilog2 x + 1)"
proof -
  obtain p q where pq: "quotient_of x = (p, q)" by (cases "quotient_of x")
  then have q: "0 < q" and x: "x = of_int p / of_int q"
    by (simp_all add: quotient_of_denom_pos quotient_of_div)
  from assms x q have p: "0 < p" by (simp add: zero_less_divide_iff)
  define k where "k = bitlen p - bitlen q"
  let ?P = "of_int p :: rat" and ?Q = "of_int q :: rat"
  have P: "0 < ?P" and Q: "0 < ?Q" using p q by simp_all
  note bp = bitlen_powi [OF p] and bq = bitlen_powi [OF q]
  have low: "2 powi (k - 1) < x"
  proof -
    have "(2 :: rat) powi (k - 1) = 2 powi ((bitlen p - 1) - bitlen q)"
      by (simp add: k_def algebra_simps)
    also have "\<dots> = (2 powi (bitlen p - 1) :: rat) / 2 powi bitlen q"
      by (rule power_int_diff) simp
    also have "\<dots> \<le> ?P / 2 powi bitlen q" using bp(1) by (simp add: divide_right_mono)
    also have "\<dots> < ?P / ?Q" using bq(2) P Q by (simp add: divide_strict_left_mono)
    finally show ?thesis by (simp add: x)
  qed
  have up: "x < 2 powi (k + 1)"
  proof -
    have "x = ?P / ?Q" by (rule x)
    also have "\<dots> < 2 powi bitlen p / ?Q" using bp(2) Q by (simp add: divide_strict_right_mono)
    also have "\<dots> \<le> 2 powi bitlen p / 2 powi (bitlen q - 1)"
      using bq(1) Q by (intro divide_left_mono) (simp_all add: zero_less_power_int)
    also have "\<dots> = 2 powi (bitlen p - (bitlen q - 1))"
      by (rule power_int_diff [symmetric]) simp
    also have "\<dots> = 2 powi (k + 1)"
      by (simp add: k_def algebra_simps)
    finally show ?thesis .
  qed
  have i: "ilog2 x = (if 2 powi k \<le> x then k else k - 1)"
    by (simp add: ilog2_def pq k_def Let_def)
  show ?thesis
  proof (cases "2 powi k \<le> x")
    case True
    then show ?thesis using up by (simp add: i)
  next
    case False
    then show ?thesis using low by (simp add: i)
  qed
qed

text \<open>
  \<open>fl\<close> is a rounding to the nearest number of the grid: the result differs from \<open>x\<close>
  by at most half the spacing \<open>2^e\<close> of the binary64 numbers around \<open>x\<close>, where \<open>e\<close> is
  \<open>ilog2 \<bar>x\<bar> - 52\<close> and at least \<open>-1074\<close>; and a number \<open>n * 2^e\<close> with
  \<open>\<bar>n\<bar> < 2^53\<close> and \<open>e\<close> at least \<open>-1074\<close> is left as it is, so every integer below
  \<open>2^53\<close> in magnitude.
\<close>

lemma roundHalfEven_near: "\<bar>of_int (roundHalfEven y) - y\<bar> \<le> 1 / 2"
proof -
  have f: "of_int \<lfloor>y\<rfloor> \<le> y" "y < of_int \<lfloor>y\<rfloor> + 1" by linarith+
  show ?thesis
    unfolding roundHalfEven_def Let_def using f by (auto split: if_splits)
qed

lemma roundHalfEven_int: "roundHalfEven (of_int n) = n"
  by (simp add: roundHalfEven_def)

lemma fl_near:
  assumes "x \<noteq> 0"
  shows "\<bar>fl x - x\<bar> \<le> 2 powi (max (ilog2 \<bar>x\<bar> - 52) (- 1074)) / 2"
proof -
  define e where "e = max (ilog2 \<bar>x\<bar> - 52) (- 1074)"
  define P :: rat where "P = 2 powi e"
  define m where "m = roundHalfEven (\<bar>x\<bar> / P)"
  have P: "0 < P" by (simp add: P_def)
  have fl: "fl x = sgn x * of_int m * P"
    using assms by (simp add: fl_def Let_def e_def P_def m_def)
  have "\<bar>fl x - x\<bar> = \<bar>of_int m * P - \<bar>x\<bar>\<bar>"
  proof (cases "0 < x")
    case True
    then show ?thesis by (simp add: fl)
  next
    case False
    with assms have "x < 0" by simp
    then have "fl x - x = - (of_int m * P - \<bar>x\<bar>)" by (simp add: fl)
    then show ?thesis by (simp only: abs_minus_cancel)
  qed
  also have "\<dots> = \<bar>of_int m - \<bar>x\<bar> / P\<bar> * P"
  proof -
    have "of_int m * P - \<bar>x\<bar> = (of_int m - \<bar>x\<bar> / P) * P" using P by (simp add: algebra_simps)
    then show ?thesis using P by (simp add: abs_mult)
  qed
  also have "\<dots> \<le> 1 / 2 * P"
    unfolding m_def using roundHalfEven_near P by (intro mult_right_mono) simp_all
  finally show ?thesis by (simp add: P_def e_def)
qed

lemma fl_exact:
  assumes "\<bar>n\<bar> < 2 ^ 53" "- 1074 \<le> e"
  shows "fl (of_int n * 2 powi e) = of_int n * 2 powi e"
proof (cases "n = 0")
  case True
  then show ?thesis by (simp add: fl_def)
next
  case False
  let ?x = "of_int n * 2 powi e :: rat"
  have x0: "?x \<noteq> 0" using False by simp
  have ax: "\<bar>?x\<bar> = of_int \<bar>n\<bar> * 2 powi e" by (simp add: abs_mult)
  have pos: "0 < \<bar>?x\<bar>" using x0 by simp
  define L where "L = ilog2 \<bar>?x\<bar>"
  define e' where "e' = max (L - 52) (- 1074)"
  have "2 powi L \<le> \<bar>?x\<bar>" unfolding L_def using ilog2_bounds [OF pos] by blast
  also have "\<bar>?x\<bar> < 2 ^ 53 * 2 powi e"
  proof -
    have "(of_int \<bar>n\<bar> :: rat) < of_int (2 ^ 53)" using assms(1) by (simp only: of_int_less_iff)
    then show ?thesis unfolding ax by (simp add: mult_strict_right_mono)
  qed
  also have "\<dots> = 2 powi (53 + e)" by (simp add: power_int_add)
  finally have lt: "(2 :: rat) powi L < 2 powi (53 + e)" .
  have "L < 53 + e"
  proof (rule ccontr)
    assume "\<not> L < 53 + e"
    then have "(2 :: rat) powi (53 + e) \<le> 2 powi L" by (intro power_int_increasing) simp_all
    with lt show False by simp
  qed
  with assms(2) have le: "e' \<le> e" unfolding e'_def by simp
  have d: "\<bar>?x\<bar> / 2 powi e' = of_int (\<bar>n\<bar> * 2 ^ nat (e - e'))"
  proof -
    have "(2 powi e :: rat) / 2 powi e' = 2 powi (e - e')" by (simp add: power_int_diff)
    also have "\<dots> = 2 ^ nat (e - e')" using le by (simp add: power_int_def)
    finally have r: "(2 powi e :: rat) / 2 powi e' = 2 ^ nat (e - e')" .
    have "\<bar>?x\<bar> / 2 powi e' = of_int \<bar>n\<bar> * ((2 powi e :: rat) / 2 powi e')"
      unfolding ax by simp
    then show ?thesis unfolding r by simp
  qed
  have "fl ?x = sgn ?x * of_int (roundHalfEven (\<bar>?x\<bar> / 2 powi e')) * 2 powi e'"
    using x0 unfolding fl_def Let_def e'_def L_def by simp
  also have "\<dots> = sgn ?x * (\<bar>?x\<bar> / 2 powi e') * 2 powi e'"
    unfolding d roundHalfEven_int ..
  also have "\<dots> = sgn ?x * \<bar>?x\<bar>" by simp
  also have "\<dots> = ?x" by (rule mult_sgn_abs)
  finally show ?thesis .
qed

lemma fl_of_int: "\<bar>n\<bar> < 2 ^ 53 \<Longrightarrow> fl (of_int n) = of_int n"
  using fl_exact [of n 0] by simp

text \<open>
  Values of the rounding: the numeral 0.1; the product 0.1 * 3, which is
  0.30000000000000004; the product 234 * 0.0725, which lies below 16.965 and is written
  16.96 by \<^verbatim>\<open>toFixed(2)\<close>; 10 * 0.0725, written 0.72; and 0.125, written 0.13.
\<close>

lemma fl_examples:
  "fl (1 / 10) = 3602879701896397 / 2 ^ 55"
  "fmul (fl (1 / 10)) 3 = fl (30000000000000004 / 10 ^ 17)"
  "fmul 234 (fl (725 / 10000)) = 4775222979896279 / 2 ^ 48"
  "round2 (fmul 234 (fl (725 / 10000))) = fl (1696 / 100)"
  "round2 (fmul 10 (fl (725 / 10000))) = fl (72 / 100)"
  "round2 (1 / 8) = fl (13 / 100)"
  by code_simp+

subsection \<open>Derived amounts\<close>

lemma subtotal_foldl_fadd:
  "subtotal items = foldl fadd 0 (map (\<lambda>item. fmul (item_price item) (of_int (quantity item))) items)"
  by (simp add: subtotal_def foldl_map)

lemma registry_values:
  "c \<in> set COUPONS \<Longrightarrow> coupon_type c = shipping \<or> (\<exists>v. coupon_value c = Some v \<and> v \<noteq> 0)"
  by (auto simp: COUPONS_def)

lemma discount_registry:
  assumes "c \<in> set COUPONS"
  shows "discount (Some c) S =
     (case (coupon_type c, coupon_value c) of
        (percent, Some v) \<Rightarrow> fdiv (fmul S v) 100
      | (fixed, Some v) \<Rightarrow> min v S
      | _ \<Rightarrow> 0)"
  using assms by (auto simp: COUPONS_def discount_def truthy_def)

lemma derive_sel:
  "a_subtotal (derive items coupon options sel rate) = subtotal items"
  "a_shippingCost (derive items coupon options sel rate) = shippingCost options sel coupon"
  "a_discount (derive items coupon options sel rate) = discount coupon (subtotal items)"
  "a_tax (derive items coupon options sel rate) =
     round2 (fmul (max (fsub (subtotal items) (discount coupon (subtotal items))) 0) rate)"
  "a_total (derive items coupon options sel rate) =
     round2 (fadd (fadd (max (fsub (subtotal items) (discount coupon (subtotal items))) 0)
                        (round2 (fmul (max (fsub (subtotal items) (discount coupon (subtotal items))) 0) rate)))
                  (shippingCost options sel coupon))"
  by (simp_all add: derive_def Let_def tax_def total_amount_def taxedSubtotal_def)

lemma scenario_2:
  "derive DEFAULT_ITEMS (lookupCoupon ''SAVE10'') DEFAULT_SHIPPING ''standard'' (fl (725 / 10000))
   = \<lparr>a_subtotal = 80, a_shippingCost = 6, a_discount = 8, a_taxedSubtotal = 72,
      a_tax = fl (522 / 100), a_total = fl (8322 / 100)\<rparr>"
  by code_simp

text \<open>
  Five totes with SAVE10: the taxable base is 234, the tax 16.96 and the total 256.96.
\<close>

lemma scenario_tote_five:
  "derive (fst (updateQty ''sku-2'' 5 (fst (removeItem ''sku-1'' DEFAULT_ITEMS))))
     (lookupCoupon ''SAVE10'') DEFAULT_SHIPPING ''standard'' (fl (725 / 10000))
   = \<lparr>a_subtotal = 260, a_shippingCost = 6, a_discount = 26, a_taxedSubtotal = 234,
      a_tax = fl (1696 / 100), a_total = fl (25696 / 100)\<rparr>"
  by code_simp

text \<open>
  Claim C1. For every cart, every coupon of the registry (or none), every selected
  shipping method and every tax rate, in the arithmetic of the component: the subtotal
  is the sum, from left to right, over the cart of price times quantity; the discount is
  the subtotal times the value, divided by 100, for a percent coupon, the smaller of
  value and subtotal for a fixed coupon, and 0 for a shipping coupon or no coupon; the
  shipping cost is 0 under a shipping coupon and the cost of the selected method
  otherwise; the tax is \<open>round2\<close> of the taxable base times the rate and the total is
  \<open>round2\<close> of taxable base plus tax plus shipping cost, the taxable base being the
  larger of subtotal minus discount and 0. Every coupon of the registry that is not of
  the shipping type carries a value. For the cart of 28 and 52 with SAVE10, the standard
  method at 6 and the rate 0.0725: discount 8, tax 5.22, total 83.22.
\<close>

theorem derived_amounts:
  assumes coupon: "coupon = None \<or> coupon \<in> Some ` set COUPONS"
    and chosen: "selectedShippingMethod options sel = Some method"
  shows "(let A = derive items coupon options sel rate;
              S = a_subtotal A; D = a_discount A
          in S = foldl fadd 0 (map (\<lambda>item. fmul (item_price item) (of_int (quantity item))) items) \<and>
             D = (case coupon of
                    None \<Rightarrow> 0
                  | Some c \<Rightarrow>
                      (case (coupon_type c, coupon_value c) of
                         (percent, Some v) \<Rightarrow> fdiv (fmul S v) 100
                       | (fixed, Some v) \<Rightarrow> min v S
                       | _ \<Rightarrow> 0)) \<and>
             a_shippingCost A = (if map_option coupon_type coupon = Some shipping then 0 else cost method) \<and>
             a_tax A = round2 (fmul (max (fsub S D) 0) rate) \<and>
             a_total A = round2 (fadd (fadd (max (fsub S D) 0) (a_tax A)) (a_shippingCost A))) \<and>
         (\<forall>c\<in>set COUPONS. coupon_type c = shipping \<or> coupon_value c \<noteq> None) \<and>
         (let A = derive DEFAULT_ITEMS (lookupCoupon ''SAVE10'')
                    DEFAULT_SHIPPING ''standard'' (fl (725 / 10000))
          in a_discount A = 8 \<and> a_tax A = fl (522 / 100) \<and> a_total A = fl (8322 / 100))"
proof -
  have d: "discount coupon S =
     (case coupon of None \<Rightarrow> 0
      | Some c \<Rightarrow> (case (coupon_type c, coupon_value c) of
                    (percent, Some v) \<Rightarrow> fdiv (fmul S v) 100
                  | (fixed, Some v) \<Rightarrow> min v S
                  | _ \<Rightarrow> 0))" for S
    using coupon discount_registry by (auto simp: discount_def)
  have reg: "\<forall>c\<in>set COUPONS. coupon_type c = shipping \<or> coupon_value c \<noteq> None"
    using registry_values by blast
  have ship: "shippingCost options sel coupon =
      (if map_option coupon_type coupon = Some shipping then 0 else cost method)"
    using chosen by (simp add: shippingCost_def)
  have sc: "derive DEFAULT_ITEMS (lookupCoupon ''SAVE10'')
                    DEFAULT_SHIPPING ''standard'' (fl (725 / 10000)) =
     \<lparr>a_subtotal = 80, a_shippingCost = 6, a_discount = 8, a_taxedSubtotal = 72,
      a_tax = fl (522 / 100), a_total = fl (8322 / 100)\<rparr>"
    by (rule scenario_2)
  show ?thesis
    unfolding Let_def sc
    unfolding derive_sel
    apply (intro conjI)
    subgoal by (rule subtotal_foldl_fadd)
    subgoal by (rule d)
    subgoal by (rule ship)
    subgoal by (rule refl)
    subgoal by (rule refl)
    subgoal by (rule reg)
    subgoal by simp
    subgoal by simp
    subgoal by simp
    done
qed

text \<open>
  The theorem at the default cart with TAKE5, the express method and the rate 0.0725:
  discount 5, shipping cost 18, tax 5.44, total 98.44.
\<close>

theorem derived_amounts_witness:
  "(Some \<lparr>coupon_code = ''TAKE5'', coupon_type = fixed, coupon_value = Some 5\<rparr> = None \<or>
    Some \<lparr>coupon_code = ''TAKE5'', coupon_type = fixed, coupon_value = Some 5\<rparr> \<in> Some ` set COUPONS) \<and>
   selectedShippingMethod DEFAULT_SHIPPING ''express'' =
     Some \<lparr>ship_id = ''express'', ship_label = ''Express'',
           ship_description = Some ''1-2 business days'', eta = Some ''Arrives in 1-2 days'', cost = 18\<rparr> \<and>
   a_discount (derive DEFAULT_ITEMS (Some \<lparr>coupon_code = ''TAKE5'', coupon_type = fixed, coupon_value = Some 5\<rparr>)
                 DEFAULT_SHIPPING ''express'' (fl (725 / 10000))) = 5 \<and>
   a_shippingCost (derive DEFAULT_ITEMS (Some \<lparr>coupon_code = ''TAKE5'', coupon_type = fixed, coupon_value = Some 5\<rparr>)
                 DEFAULT_SHIPPING ''express'' (fl (725 / 10000))) = 18 \<and>
   a_tax (derive DEFAULT_ITEMS (Some \<lparr>coupon_code = ''TAKE5'', coupon_type = fixed, coupon_value = Some 5\<rparr>)
                 DEFAULT_SHIPPING ''express'' (fl (725 / 10000))) = fl (544 / 100) \<and>
   a_total (derive DEFAULT_ITEMS (Some \<lparr>coupon_code = ''TAKE5'', coupon_type = fixed, coupon_value = Some 5\<rparr>)
                 DEFAULT_SHIPPING ''express'' (fl (725 / 10000))) = fl (9844 / 100)"
proof -
  let ?c = "\<lparr>coupon_code = ''TAKE5'', coupon_type = fixed, coupon_value = Some 5\<rparr>"
  let ?m = "\<lparr>ship_id = ''express'', ship_label = ''Express'',
           ship_description = Some ''1-2 business days'', eta = Some ''Arrives in 1-2 days'', cost = 18\<rparr>"
  let ?A = "derive DEFAULT_ITEMS (Some ?c) DEFAULT_SHIPPING ''express'' (fl (725 / 10000))"
  have h1: "Some ?c = None \<or> Some ?c \<in> Some ` set COUPONS"
    by (simp add: COUPONS_def)
  have h2: "selectedShippingMethod DEFAULT_SHIPPING ''express'' = Some ?m"
    by (simp add: selectedShippingMethod_def DEFAULT_SHIPPING_def)
  have s: "foldl fadd 0 (map (\<lambda>item. fmul (item_price item) (of_int (quantity item))) DEFAULT_ITEMS) = 80"
    by code_simp
  have t: "round2 (fmul (max (fsub 80 5) 0) (fl (725 / 10000))) = fl (544 / 100)"
    by code_simp
  have u: "round2 (fadd (fadd (max (fsub 80 5) 0) (fl (544 / 100))) 18) = fl (9844 / 100)"
    by code_simp
  note w = derived_amounts [OF h1 h2, of DEFAULT_ITEMS "fl (725 / 10000)", unfolded Let_def, THEN conjunct1]
  from w have S: "a_subtotal ?A = 80" unfolding s by blast
  from w have "a_discount ?A = min 5 (a_subtotal ?A)" by simp
  then have D: "a_discount ?A = 5" unfolding S by simp
  from w have "a_shippingCost ?A = 18" by simp
  then have H: "a_shippingCost ?A = 18" .
  from w have "a_tax ?A = round2 (fmul (max (fsub (a_subtotal ?A) (a_discount ?A)) 0) (fl (725 / 10000)))"
    by blast
  then have T: "a_tax ?A = fl (544 / 100)" unfolding S D t .
  from w have "a_total ?A = round2 (fadd (fadd (max (fsub (a_subtotal ?A) (a_discount ?A)) 0) (a_tax ?A)) (a_shippingCost ?A))"
    by blast
  then have "a_total ?A = fl (9844 / 100)" unfolding S D T H u .
  with h1 h2 D H T show ?thesis by blast
qed

subsection \<open>Rounding and the total\<close>

text \<open>
  Claim C2 states that the total equals \<open>round2\<close> of the taxable base times one plus
  the rate, plus the shipping cost. The component rounds the tax first and then the sum
  of taxable base, tax and shipping cost. For one item at 19.99 with SAVE10, the standard
  method and the rate 0.0725 the taxable base is 17.991: the component's total is 25.29
  (tax 1.30) and the stated formula gives 19.30 + 6 = 25.30.
\<close>

theorem total_counterexample:
  "a_total (derive cart_1999 (lookupCoupon ''SAVE10'') DEFAULT_SHIPPING ''standard'' (fl (725 / 10000))) = fl (2529 / 100) \<and>
   fadd (round2 (fmul (max (fsub (a_subtotal (derive cart_1999 (lookupCoupon ''SAVE10'') DEFAULT_SHIPPING ''standard'' (fl (725 / 10000))))
                                 (a_discount (derive cart_1999 (lookupCoupon ''SAVE10'') DEFAULT_SHIPPING ''standard'' (fl (725 / 10000))))) 0)
                      (fadd 1 (fl (725 / 10000)))))
        (a_shippingCost (derive cart_1999 (lookupCoupon ''SAVE10'') DEFAULT_SHIPPING ''standard'' (fl (725 / 10000)))) = fl (2530 / 100) \<and>
   a_total (derive cart_1999 (lookupCoupon ''SAVE10'') DEFAULT_SHIPPING ''standard'' (fl (725 / 10000))) \<noteq>
   fadd (round2 (fmul (max (fsub (a_subtotal (derive cart_1999 (lookupCoupon ''SAVE10'') DEFAULT_SHIPPING ''standard'' (fl (725 / 10000))))
                                 (a_discount (derive cart_1999 (lookupCoupon ''SAVE10'') DEFAULT_SHIPPING ''standard'' (fl (725 / 10000))))) 0)
                      (fadd 1 (fl (725 / 10000)))))
        (a_shippingCost (derive cart_1999 (lookupCoupon ''SAVE10'') DEFAULT_SHIPPING ''standard'' (fl (725 / 10000))))"
proof -
  have v: "derive cart_1999 (lookupCoupon ''SAVE10'') DEFAULT_SHIPPING ''standard'' (fl (725 / 10000)) =
      \<lparr>a_subtotal = fl (1999 / 100), a_shippingCost = 6, a_discount = fl (19989999999999997 / 10 ^ 16),
       a_taxedSubtotal = fl (17991 / 1000), a_tax = fl (130 / 100), a_total = fl (2529 / 100)\<rparr>"
    by code_simp
  have f: "fadd (round2 (fmul (max (fsub (fl (1999 / 100)) (fl (19989999999999997 / 10 ^ 16))) 0) (fadd 1 (fl (725 / 10000))))) 6 =
      fl (2530 / 100)"
    by code_simp
  have n: "fl (2529 / 100) \<noteq> fl (2530 / 100)" by code_simp
  show ?thesis unfolding v using f n by simp
qed

text \<open>
  Claim C2, amended. The total equals \<open>round2\<close> of the sum of the taxable base, the tax
  and the shipping cost, where the tax is \<open>round2\<close> of the taxable base times the rate:
  the tax is rounded to hundredths before it is added, and the shipping cost is added
  before the last rounding. The shipping cost is 0 under a shipping coupon and the cost
  of the selected method otherwise.
\<close>

theorem total_two_roundings:
  assumes "selectedShippingMethod options sel = Some method"
  shows "a_total (derive items coupon options sel rate) =
           round2 (fadd (fadd (max (fsub (a_subtotal (derive items coupon options sel rate))
                                         (a_discount (derive items coupon options sel rate))) 0)
                              (round2 (fmul (max (fsub (a_subtotal (derive items coupon options sel rate))
                                                       (a_discount (derive items coupon options sel rate))) 0) rate)))
                        (a_shippingCost (derive items coupon options sel rate))) \<and>
         a_shippingCost (derive items coupon options sel rate) =
           (if map_option coupon_type coupon = Some shipping then 0 else cost method)"
  using assms by (simp add: derive_sel shippingCost_def)

text \<open>
  The theorem at five totes with SAVE10, the standard method and the rate 0.0725: the
  taxable base is 234 and the total 256.96.
\<close>

theorem total_two_roundings_witness:
  "selectedShippingMethod DEFAULT_SHIPPING ''standard'' =
     Some \<lparr>ship_id = ''standard'', ship_label = ''Standard'',
           ship_description = Some ''3-5 business days'', eta = Some ''Arrives in 3-5 days'', cost = 6\<rparr> \<and>
   a_total (derive (fst (updateQty ''sku-2'' 5 (fst (removeItem ''sku-1'' DEFAULT_ITEMS))))
              (lookupCoupon ''SAVE10'') DEFAULT_SHIPPING ''standard'' (fl (725 / 10000))) =
     round2 (fadd (fadd 234 (round2 (fmul 234 (fl (725 / 10000))))) 6) \<and>
   a_total (derive (fst (updateQty ''sku-2'' 5 (fst (removeItem ''sku-1'' DEFAULT_ITEMS))))
              (lookupCoupon ''SAVE10'') DEFAULT_SHIPPING ''standard'' (fl (725 / 10000))) = fl (25696 / 100) \<and>
   a_shippingCost (derive (fst (updateQty ''sku-2'' 5 (fst (removeItem ''sku-1'' DEFAULT_ITEMS))))
              (lookupCoupon ''SAVE10'') DEFAULT_SHIPPING ''standard'' (fl (725 / 10000))) = 6"
proof -
  let ?m = "\<lparr>ship_id = ''standard'', ship_label = ''Standard'',
           ship_description = Some ''3-5 business days'', eta = Some ''Arrives in 3-5 days'', cost = 6\<rparr>"
  have h: "selectedShippingMethod DEFAULT_SHIPPING ''standard'' = Some ?m"
    by (simp add: selectedShippingMethod_def DEFAULT_SHIPPING_def)
  have b: "max (fsub 260 26) 0 = 234" by code_simp
  have c: "map_option coupon_type (lookupCoupon ''SAVE10'') \<noteq> Some shipping"
    by (simp add: lookupCoupon_def COUPONS_def)
  note w = total_two_roundings [OF h,
      of "fst (updateQty ''sku-2'' 5 (fst (removeItem ''sku-1'' DEFAULT_ITEMS)))" "lookupCoupon ''SAVE10''"
         "fl (725 / 10000)", unfolded scenario_tote_five]
  from w have t: "fl (25696 / 100) = round2 (fadd (fadd 234 (round2 (fmul 234 (fl (725 / 10000))))) 6)"
    by (simp add: b)
  show ?thesis unfolding scenario_tote_five using h t by simp
qed

subsection \<open>Quantity updates\<close>

text \<open>What \<open>updateQty\<close> computes: the new cart and the notices, in closed form.\<close>

lemma updateQty_fst:
  "fst (updateQty i q items) =
     map (\<lambda>it. if item_id it = i \<and> (q < 1 \<or> q \<le> stock it) then it\<lparr>quantity := q\<rparr> else it) items"
  by (induction items) (auto simp: validateQty_def Let_def split: prod.splits)

lemma updateQty_snd:
  "snd (updateQty i q items) =
     map (\<lambda>it. OnlyLeftInStock (stock it) (item_name it))
       (filter (\<lambda>it. item_id it = i \<and> 1 \<le> q \<and> stock it < q) items)"
  by (induction items) (auto simp: validateQty_def Let_def split: prod.splits)

text \<open>
  A request above the stock of a line leaves the line as it is and raises the notice; a
  request between 1 and the stock becomes the new quantity.
\<close>

lemma updateQty_above_stock:
  assumes "k < length items" "item_id (items ! k) = i" "1 \<le> q" "stock (items ! k) < q"
  shows "fst (updateQty i q items) ! k = items ! k"
    and "OnlyLeftInStock (stock (items ! k)) (item_name (items ! k)) \<in> set (snd (updateQty i q items))"
  using assms by (auto simp: updateQty_fst updateQty_snd)

lemma updateQty_in_range:
  assumes "k < length items" "item_id (items ! k) = i" "1 \<le> q" "q \<le> stock (items ! k)"
  shows "quantity (fst (updateQty i q items) ! k) = q"
  using assms by (simp add: updateQty_fst)

text \<open>
  Claim C3 states that no quantity mutation leaves a line outside the range from 1 to
  its stock. \<open>validateQty\<close> accepts every request below 1, and \<open>updateQty\<close> then
  stores it: on the default cart the request 0 for the first line (stock 8) is stored
  and no notice is raised.
\<close>

theorem updateQty_below_one:
  "map quantity (fst (updateQty ''sku-1'' 0 DEFAULT_ITEMS)) = [0, 1] \<and>
   map stock (fst (updateQty ''sku-1'' 0 DEFAULT_ITEMS)) = [8, 5] \<and>
   snd (updateQty ''sku-1'' 0 DEFAULT_ITEMS) = []"
  by (simp add: DEFAULT_ITEMS_def validateQty_def)

subsection \<open>The discount and the subtotal\<close>

lemma subtotal_nonneg:
  assumes "\<forall>it\<in>set items. 0 \<le> item_price it \<and> 0 \<le> quantity it"
  shows "0 \<le> subtotal items"
proof -
  have "0 \<le> a \<Longrightarrow> \<forall>it\<in>set items. 0 \<le> item_price it \<and> 0 \<le> quantity it \<Longrightarrow>
        0 \<le> foldl (\<lambda>acc item. fadd acc (fmul (item_price item) (of_int (quantity item)))) a items" for a
  proof (induction items arbitrary: a)
    case Nil
    then show ?case by simp
  next
    case (Cons it items)
    have "0 \<le> fmul (item_price it) (of_int (quantity it))"
      unfolding fmul_def using Cons.prems(2) by (intro fl_nonneg mult_nonneg_nonneg) simp_all
    then have "0 \<le> fadd a (fmul (item_price it) (of_int (quantity it)))"
      unfolding fadd_def using Cons.prems(1) by (intro fl_nonneg add_nonneg_nonneg)
    then show ?case using Cons.IH Cons.prems(2) by simp
  qed
  then show ?thesis using assms by (simp add: subtotal_def)
qed

text \<open>
  A percentage of at most 25 of a subtotal that is not negative stays below the
  subtotal, whatever the two roundings do.
\<close>

lemma percent_le:
  assumes "0 \<le> S" "0 \<le> v" "v \<le> 25"
  shows "fdiv (fmul S v) 100 \<le> S"
proof -
  have p: "0 \<le> S * v" using assms by simp
  have a: "0 \<le> fl (S * v)" "fl (S * v) \<le> 2 * (S * v)"
    using p by (rule fl_nonneg, rule fl_le_twice)
  have q: "0 \<le> fl (S * v) / 100" using a(1) by simp
  have "fl (fl (S * v) / 100) \<le> 2 * (fl (S * v) / 100)" using q by (rule fl_le_twice)
  also have "\<dots> \<le> 2 * (2 * (S * v) / 100)" using a(2) by simp
  also have "\<dots> = S * (v / 25)" by simp
  also have "\<dots> \<le> S * 1" using assms by (intro mult_left_mono) simp_all
  finally show ?thesis by (simp add: fdiv_def fmul_def)
qed

text \<open>
  Claim C6 states that the discount never exceeds the subtotal, for every coupon of the
  registry and every cart. A cart with a negative subtotal refutes it: after the
  quantity request \<open>-3\<close> for the first line of the default cart the subtotal is \<open>-32\<close>
  and the discount under SAVE10 is \<open>-3.2\<close>.
\<close>

theorem discount_counterexample:
  "lookupCoupon ''SAVE10'' \<in> Some ` set COUPONS \<and>
   subtotal (fst (updateQty ''sku-1'' (- 3) DEFAULT_ITEMS)) = - 32 \<and>
   discount (lookupCoupon ''SAVE10'') (subtotal (fst (updateQty ''sku-1'' (- 3) DEFAULT_ITEMS))) = fl (- 32 / 10) \<and>
   \<not> discount (lookupCoupon ''SAVE10'') (subtotal (fst (updateQty ''sku-1'' (- 3) DEFAULT_ITEMS)))
      \<le> subtotal (fst (updateQty ''sku-1'' (- 3) DEFAULT_ITEMS))"
  by code_simp

text \<open>
  Claim C6, amended. For every coupon of the registry and every cart whose subtotal is
  not negative, the discount is at most the subtotal; for a fixed coupon this holds for
  every cart. Every percent coupon of the registry has a value of at most 100.
\<close>

theorem discount_le_subtotal:
  assumes "c \<in> set COUPONS" and "0 \<le> subtotal items \<or> coupon_type c = fixed"
  shows "discount (Some c) (subtotal items) \<le> subtotal items \<and>
         (coupon_type c = percent \<longrightarrow> (\<exists>v. coupon_value c = Some v \<and> v \<le> 100))"
proof -
  have p: "fdiv (fmul (subtotal items) v) 100 \<le> subtotal items"
    if "0 \<le> subtotal items" "v = 10 \<or> v = 15" for v
    using that by (intro percent_le) auto
  show ?thesis using assms p by (auto simp: COUPONS_def discount_def truthy_def)
qed

text \<open>The theorem at the default cart with WELCOME15.\<close>

theorem discount_le_subtotal_witness:
  "\<lparr>coupon_code = ''WELCOME15'', coupon_type = percent, coupon_value = Some 15\<rparr> \<in> set COUPONS \<and>
   (0 \<le> subtotal DEFAULT_ITEMS \<or>
    coupon_type \<lparr>coupon_code = ''WELCOME15'', coupon_type = percent, coupon_value = Some 15\<rparr> = fixed) \<and>
   discount (Some \<lparr>coupon_code = ''WELCOME15'', coupon_type = percent, coupon_value = Some 15\<rparr>)
     (subtotal DEFAULT_ITEMS) \<le> subtotal DEFAULT_ITEMS \<and>
   coupon_type \<lparr>coupon_code = ''WELCOME15'', coupon_type = percent, coupon_value = Some 15\<rparr> = percent \<and>
   (\<exists>v. coupon_value \<lparr>coupon_code = ''WELCOME15'', coupon_type = percent, coupon_value = Some 15\<rparr> = Some v \<and>
        v \<le> 100)"
proof -
  let ?c = "\<lparr>coupon_code = ''WELCOME15'', coupon_type = percent, coupon_value = Some 15\<rparr>"
  have h1: "?c \<in> set COUPONS" by (simp add: COUPONS_def)
  have "0 \<le> subtotal DEFAULT_ITEMS" by (rule subtotal_nonneg) (simp add: DEFAULT_ITEMS_def)
  then have h2: "0 \<le> subtotal DEFAULT_ITEMS \<or> coupon_type ?c = fixed" by simp
  have h3: "coupon_type ?c = percent" by simp
  from discount_le_subtotal [OF h1 h2] h1 h2 h3 show ?thesis by blast
qed

subsection \<open>Coupon application\<close>

lemma lookupCoupon_Some:
  "lookupCoupon code = Some found \<Longrightarrow> found \<in> set COUPONS \<and> coupon_code found = code"
  unfolding lookupCoupon_def by (auto simp: find_Some_iff)

lemma lookupCoupon_None:
  "lookupCoupon code = None \<longleftrightarrow> (\<forall>c\<in>set COUPONS. coupon_code c \<noteq> code)"
  unfolding lookupCoupon_def by (auto simp: find_None_iff)

lemma find_distinct_key:
  "distinct (map f xs) \<Longrightarrow> x \<in> set xs \<Longrightarrow> find (\<lambda>y. f y = f x) xs = Some x"
  by (induction xs) (auto simp: image_iff)

lemma COUPONS_distinct: "distinct (map coupon_code COUPONS)"
  by (simp add: COUPONS_def)

lemma lookupCoupon_registry: "c \<in> set COUPONS \<Longrightarrow> lookupCoupon (coupon_code c) = Some c"
  unfolding lookupCoupon_def using COUPONS_distinct by (rule find_distinct_key)

lemma registry_code_nonempty: "c \<in> set COUPONS \<Longrightarrow> coupon_code c \<noteq> []"
  by (auto simp: COUPONS_def)

lemma lookupCoupon_empty: "lookupCoupon [] = None"
  by (simp add: lookupCoupon_def COUPONS_def)

lemma isWhiteSpace_upperChar: "isWhiteSpace (upperChar c) = isWhiteSpace c"
  by (simp add: upperChar_def isWhiteSpace_def)

lemma toUpperCase_trim: "toUpperCase (trim s) = trim (toUpperCase s)"
  by (simp add: trim_def toUpperCase_def dropWhile_map rev_map comp_def isWhiteSpace_upperChar)

text \<open>
  Claim C7 states that a normalized code that matches no entry of the registry leaves the
  applied coupon unchanged and raises a rejection. For a blank input the normalized
  code is empty and matches no entry, and the handler returns without any notice.
\<close>

theorem applyCoupon_empty_counterexample:
  "lookupCoupon (toUpperCase (trim (couponInput (initial_checkout\<lparr>couponInput := ''  ''\<rparr>)))) = None \<and>
   applyCoupon (initial_checkout\<lparr>couponInput := ''  ''\<rparr>) = (initial_checkout\<lparr>couponInput := ''  ''\<rparr>, [])"
  by (simp add: applyCoupon_def trim_def toUpperCase_def isWhiteSpace_def lookupCoupon_empty)

lemma normalize_nope: "toUpperCase (trim ''NOPE'') = ''NOPE''" 
  by (simp add: trim_def toUpperCase_def isWhiteSpace_def upperChar_def)

lemma lookup_nope: "lookupCoupon ''NOPE'' = None"
  by (simp add: lookupCoupon_def COUPONS_def)

text \<open>
  Claim C7, amended. Coupon application trims and uppercases the submitted code and
  matches it against the registry. If the normalized code is empty, the state is
  unchanged and nothing is raised. If it is not empty and matches no entry, the state is
  unchanged and the rejection notice is raised; so it is for the input NOPE. If it
  matches an entry, that entry replaces the applied coupon, whatever it was, and the
  success notice is raised.
\<close>

theorem applyCoupon_cases:
  "(toUpperCase (trim (couponInput s)) = [] \<longrightarrow> applyCoupon s = (s, [])) \<and>
   (toUpperCase (trim (couponInput s)) \<noteq> [] \<and>
      (\<forall>c\<in>set COUPONS. coupon_code c \<noteq> toUpperCase (trim (couponInput s))) \<longrightarrow>
      applyCoupon s = (s, [CouponNotRecognized])) \<and>
   (\<forall>c\<in>set COUPONS. coupon_code c = toUpperCase (trim (couponInput s)) \<longrightarrow>
      applyCoupon s = (s\<lparr>appliedCoupon := Some c\<rparr>, [CouponApplied (coupon_code c)])) \<and>
   (couponInput s = ''NOPE'' \<longrightarrow> applyCoupon s = (s, [CouponNotRecognized]))"
proof (intro conjI impI ballI)
  assume "toUpperCase (trim (couponInput s)) = []"
  then show "applyCoupon s = (s, [])" by (simp add: applyCoupon_def)
next
  assume "toUpperCase (trim (couponInput s)) \<noteq> [] \<and>
      (\<forall>c\<in>set COUPONS. coupon_code c \<noteq> toUpperCase (trim (couponInput s)))"
  then show "applyCoupon s = (s, [CouponNotRecognized])"
    by (simp add: applyCoupon_def lookupCoupon_None [symmetric])
next
  fix c assume c: "c \<in> set COUPONS" "coupon_code c = toUpperCase (trim (couponInput s))"
  then have ne: "toUpperCase (trim (couponInput s)) \<noteq> []"
    using registry_code_nonempty by metis
  from c have "lookupCoupon (toUpperCase (trim (couponInput s))) = Some c"
    using lookupCoupon_registry by metis
  with ne show "applyCoupon s = (s\<lparr>appliedCoupon := Some c\<rparr>, [CouponApplied (coupon_code c)])"
    by (simp add: applyCoupon_def)
next
  assume "couponInput s = ''NOPE''"
  then show "applyCoupon s = (s, [CouponNotRecognized])"
    by (simp add: applyCoupon_def normalize_nope lookup_nope)
qed

text \<open>The theorem at the input \<open>save10\<close> between blanks, with TAKE5 applied before.\<close>

theorem applyCoupon_cases_witness:
  "\<lparr>coupon_code = ''SAVE10'', coupon_type = percent, coupon_value = Some 10\<rparr> \<in> set COUPONS \<and>
   coupon_code \<lparr>coupon_code = ''SAVE10'', coupon_type = percent, coupon_value = Some 10\<rparr> =
     toUpperCase (trim (couponInput (initial_checkout\<lparr>couponInput := '' save10 '', appliedCoupon := lookupCoupon ''TAKE5''\<rparr>))) \<and>
   applyCoupon (initial_checkout\<lparr>couponInput := '' save10 '', appliedCoupon := lookupCoupon ''TAKE5''\<rparr>) =
     (initial_checkout\<lparr>couponInput := '' save10 '',
        appliedCoupon := Some \<lparr>coupon_code = ''SAVE10'', coupon_type = percent, coupon_value = Some 10\<rparr>\<rparr>,
      [CouponApplied ''SAVE10'']) \<and>
   toUpperCase (trim (couponInput initial_checkout)) = [] \<and>
   applyCoupon initial_checkout = (initial_checkout, []) \<and>
   toUpperCase (trim (couponInput (initial_checkout\<lparr>couponInput := ''nope''\<rparr>))) \<noteq> [] \<and>
   lookupCoupon (toUpperCase (trim (couponInput (initial_checkout\<lparr>couponInput := ''nope''\<rparr>)))) = None \<and>
   applyCoupon (initial_checkout\<lparr>couponInput := ''nope''\<rparr>) =
     (initial_checkout\<lparr>couponInput := ''nope''\<rparr>, [CouponNotRecognized]) \<and>
   couponInput (initial_checkout\<lparr>couponInput := ''NOPE'', appliedCoupon := lookupCoupon ''TAKE5''\<rparr>) = ''NOPE'' \<and>
   applyCoupon (initial_checkout\<lparr>couponInput := ''NOPE'', appliedCoupon := lookupCoupon ''TAKE5''\<rparr>) =
     (initial_checkout\<lparr>couponInput := ''NOPE'', appliedCoupon := lookupCoupon ''TAKE5''\<rparr>, [CouponNotRecognized])"
proof -
  let ?c = "\<lparr>coupon_code = ''SAVE10'', coupon_type = percent, coupon_value = Some 10\<rparr>"
  let ?s = "initial_checkout\<lparr>couponInput := '' save10 '', appliedCoupon := lookupCoupon ''TAKE5''\<rparr>"
  let ?n = "initial_checkout\<lparr>couponInput := ''nope''\<rparr>"
  let ?N = "initial_checkout\<lparr>couponInput := ''NOPE'', appliedCoupon := lookupCoupon ''TAKE5''\<rparr>"
  have h1: "?c \<in> set COUPONS" by (simp add: COUPONS_def)
  have h2: "coupon_code ?c = toUpperCase (trim (couponInput ?s))"
    by (simp add: trim_def toUpperCase_def isWhiteSpace_def upperChar_def)
  from applyCoupon_cases [of ?s] h1 h2
  have "applyCoupon ?s = (?s\<lparr>appliedCoupon := Some ?c\<rparr>, [CouponApplied (coupon_code ?c)])"
    by blast
  then have a: "applyCoupon ?s =
      (initial_checkout\<lparr>couponInput := '' save10 '', appliedCoupon := Some ?c\<rparr>, [CouponApplied ''SAVE10''])"
    by simp
  have h3: "toUpperCase (trim (couponInput initial_checkout)) = []"
    by (simp add: initial_checkout_def trim_def toUpperCase_def)
  from applyCoupon_cases [of initial_checkout] h3
  have b: "applyCoupon initial_checkout = (initial_checkout, [])" by blast
  have n: "toUpperCase (trim (couponInput ?n)) = ''NOPE''"
    by (simp add: trim_def toUpperCase_def isWhiteSpace_def upperChar_def)
  have h4: "toUpperCase (trim (couponInput ?n)) \<noteq> []" unfolding n by simp
  have h5: "\<forall>c\<in>set COUPONS. coupon_code c \<noteq> toUpperCase (trim (couponInput ?n))"
    unfolding n by (simp add: COUPONS_def)
  from applyCoupon_cases [of ?n] h4 h5
  have c: "applyCoupon ?n = (?n, [CouponNotRecognized])" by blast
  have h6: "couponInput ?N = ''NOPE''" by simp
  from applyCoupon_cases [of ?N] h6
  have d: "applyCoupon ?N = (?N, [CouponNotRecognized])" by blast
  have h5': "lookupCoupon (toUpperCase (trim (couponInput ?n))) = None"
    using h5 by (simp only: lookupCoupon_None)
  from h1 h2 a h3 b h4 h5' c h6 d show ?thesis by blast
qed

subsection \<open>The compare set\<close>

lemma set_compareIds: "set (compareIds cmp) = {k. map_of cmp k = Some True}"
  by (auto simp: compareIds_def dest: map_of_SomeD intro: rev_image_eqI)

lemma distinct_compareIds: "distinct (map fst cmp) \<Longrightarrow> distinct (compareIds cmp)"
  by (simp add: compareIds_def)

lemma length_compareIds:
  "distinct (map fst cmp) \<Longrightarrow> length (compareIds cmp) = card {k. map_of cmp k = Some True}"
proof -
  assume "distinct (map fst cmp)"
  then have "distinct (compareIds cmp)" by (rule distinct_compareIds)
  then have "card (set (compareIds cmp)) = length (compareIds cmp)" by (rule distinct_card)
  then show ?thesis by (simp add: set_compareIds)
qed

lemma toggleCompare_eq:
  "toggleCompare i prev =
     (if length (compareIds (AList.update i (map_of prev i \<noteq> Some True) prev)) > 4
      then (prev, [CompareLimit])
      else (AList.update i (map_of prev i \<noteq> Some True) prev, []))"
  by (simp add: toggleCompare_def compareIds_def Let_def)

lemma toggleCompare_distinct:
  "distinct (map fst prev) \<Longrightarrow> distinct (map fst (fst (toggleCompare i prev)))"
  by (simp add: toggleCompare_eq distinct_update)

lemma toggleCompare_le4:
  "length (compareIds prev) \<le> 4 \<Longrightarrow> length (compareIds (fst (toggleCompare i prev))) \<le> 4"
  by (simp add: toggleCompare_eq)

lemma toggles_snoc: "toggles (ids @ [i]) = fst (toggleCompare i (toggles ids))"
  by (simp add: toggles_def)

lemma toggles_invariant:
  "distinct (map fst (toggles ids)) \<and> length (compareIds (toggles ids)) \<le> 4"
proof (induction ids rule: rev_induct)
  case Nil
  show ?case by (simp add: toggles_def compareIds_def)
next
  case (snoc i ids)
  then show ?case
    by (simp add: toggles_snoc toggleCompare_distinct toggleCompare_le4)
qed

lemma toggle_off:
  assumes d: "distinct (map fst prev)" and le: "length (compareIds prev) \<le> 4"
    and on: "i \<in> set (compareIds prev)"
  shows "toggleCompare i prev = (AList.update i False prev, [])"
    and "set (compareIds (AList.update i False prev)) = set (compareIds prev) - {i}"
proof -
  have act: "map_of prev i = Some True" using on by (simp add: set_compareIds)
  show s: "set (compareIds (AList.update i False prev)) = set (compareIds prev) - {i}"
    by (auto simp: set_compareIds update_conv')
  have "card (set (compareIds (AList.update i False prev))) \<le> card (set (compareIds prev))"
    unfolding s by (rule card_mono) auto
  then have "length (compareIds (AList.update i False prev)) \<le> length (compareIds prev)"
    using d by (simp add: length_compareIds set_compareIds distinct_update)
  with le show "toggleCompare i prev = (AList.update i False prev, [])"
    by (simp add: toggleCompare_eq act)
qed

lemma toggle_on_full:
  assumes d: "distinct (map fst prev)" and full: "length (compareIds prev) = 4"
    and off: "i \<notin> set (compareIds prev)"
  shows "toggleCompare i prev = (prev, [CompareLimit])"
proof -
  have act: "map_of prev i \<noteq> Some True" using off by (simp add: set_compareIds)
  have s: "set (compareIds (AList.update i True prev)) = insert i (set (compareIds prev))"
    by (auto simp: set_compareIds update_conv')
  have "card (set (compareIds (AList.update i True prev))) = Suc (card (set (compareIds prev)))"
    unfolding s using off by simp
  then have "length (compareIds (AList.update i True prev)) = 5"
    using d full by (simp add: length_compareIds set_compareIds distinct_update)
  then show ?thesis by (simp add: toggleCompare_eq act)
qed

text \<open>
  Claim C8. After any sequence of toggles from the empty compare object the compare set
  has at most 4 members. When it has 4 members, toggling another product on is rejected:
  the object stays exactly as it was and the limit notice is raised. Toggling a member off
  is accepted: no notice is raised and the set loses exactly that member.
\<close>

theorem compare_at_most_four:
  "length (compareIds (toggles ids)) \<le> 4 \<and>
   (length (compareIds (toggles ids)) = 4 \<and> i \<notin> set (compareIds (toggles ids)) \<longrightarrow>
      toggleCompare i (toggles ids) = (toggles ids, [CompareLimit])) \<and>
   (i \<in> set (compareIds (toggles ids)) \<longrightarrow>
      snd (toggleCompare i (toggles ids)) = [] \<and>
      set (compareIds (fst (toggleCompare i (toggles ids)))) = set (compareIds (toggles ids)) - {i})"
  using toggles_invariant [of ids] toggle_on_full [of "toggles ids" i] toggle_off [of "toggles ids" i]
  by simp


text \<open>The theorem after four toggles, for a fifth product and for a member.\<close>

theorem compare_at_most_four_witness:
  "length (compareIds (toggles [''a'', ''b'', ''c'', ''d''])) = 4 \<and>
   ''e'' \<notin> set (compareIds (toggles [''a'', ''b'', ''c'', ''d''])) \<and>
   ''b'' \<in> set (compareIds (toggles [''a'', ''b'', ''c'', ''d''])) \<and>
   toggleCompare ''e'' (toggles [''a'', ''b'', ''c'', ''d'']) = (toggles [''a'', ''b'', ''c'', ''d''], [CompareLimit]) \<and>
   snd (toggleCompare ''b'' (toggles [''a'', ''b'', ''c'', ''d''])) = [] \<and>
   set (compareIds (fst (toggleCompare ''b'' (toggles [''a'', ''b'', ''c'', ''d''])))) = {''a'', ''c'', ''d''}"
proof -
  have t: "compareIds (toggles [''a'', ''b'', ''c'', ''d'']) = [''a'', ''b'', ''c'', ''d'']"
    by code_simp
  have h1: "length (compareIds (toggles [''a'', ''b'', ''c'', ''d''])) = 4" by (simp add: t)
  have h2: "''e'' \<notin> set (compareIds (toggles [''a'', ''b'', ''c'', ''d'']))" by (simp add: t)
  have h3: "''b'' \<in> set (compareIds (toggles [''a'', ''b'', ''c'', ''d'']))" by (simp add: t)
  have e: "set (compareIds (toggles [''a'', ''b'', ''c'', ''d''])) - {''b''} = {''a'', ''c'', ''d''}"
    by (auto simp: t)
  from compare_at_most_four [of "[''a'', ''b'', ''c'', ''d'']" "''e''"]
       compare_at_most_four [of "[''a'', ''b'', ''c'', ''d'']" "''b''"] h1 h2 h3 e
  show ?thesis by metis
qed

subsection \<open>The checkout steps\<close>

lemma goBack_eq:
  "goBack s =
     (case step s of
        Cart \<Rightarrow> s
      | Details \<Rightarrow> s\<lparr>step := Cart\<rparr>
      | Shipping \<Rightarrow> s\<lparr>step := Details\<rparr>
      | Payment \<Rightarrow> s\<lparr>step := Shipping\<rparr>
      | Review \<Rightarrow> s\<lparr>step := Payment\<rparr>
      | Success \<Rightarrow> s\<lparr>step := Review\<rparr>)"
  by (cases "step s") (simp_all add: goBack_def step_order_def Let_def)

text \<open>
  The backward navigation from a state after the first moves to the state just before
  it in the order of the steps and changes nothing else.
\<close>

lemma goBack_preceding:
  assumes "0 < k" "k < length step_order" "step s = step_order ! k"
  shows "goBack s = s\<lparr>step := step_order ! (k - 1)\<rparr>"
proof -
  from assms(1,2) have "k = 1 \<or> k = 2 \<or> k = 3 \<or> k = 4 \<or> k = 5"
    by (simp add: step_order_def) arith
  then show ?thesis using assms(3)
    by (elim disjE) (simp_all add: goBack_eq step_order_def)
qed

text \<open>
  The success step names an element that is not in scope; every other step renders its
  controls.
\<close>

lemma render_Success: "render Success = Inl (ReferenceError ''ShoppingBasket'')"
  by (simp add: render_def elements_def module_scope_def)

lemma render_other: "st \<noteq> Success \<Longrightarrow> render st = Inr (controls st)"
  by (cases st) (simp_all add: render_def elements_def module_scope_def)

lemma render_Inr: "render st = Inr cs \<Longrightarrow> st \<noteq> Success \<and> cs = controls st"
  by (cases "st = Success") (simp_all add: render_Success render_other)

lemma press_step:
  assumes "render (step s) = Inr cs" "c \<in> set cs" "click P c s = Some s'"
  shows "step s' \<noteq> Success"
proof -
  from assms(1) have r: "step s \<noteq> Success" "cs = controls (step s)" by (auto dest: render_Inr)
  with assms(2,3) show ?thesis
    by (cases "step s")
       (auto simp: controls_def click_def goBack_eq handlePlaceOrder_begin_def split: if_splits)
qed

text \<open>
  The last step is entered only by the resumption of \<open>handlePlaceOrder\<close>, which lowers
  the flag; so no order is being placed in a reachable state at the last step, and no
  transition leaves such a state.
\<close>

lemma success_not_placing:
  "reachable P s \<Longrightarrow> step s = Success \<Longrightarrow> \<not> isPlacingOrder s"
proof (induction rule: reachable.induct)
  case (start s)
  then show ?case by simp
next
  case (move s s')
  from move.hyps(2) move.prems show ?case
  proof (cases rule: transition.cases)
    case (press cs c)
    then show ?thesis using press_step move.prems by blast
  next
    case order_placed
    then show ?thesis by (simp add: handlePlaceOrder_resume_def)
  next
    case (edit cs)
    then show ?thesis using move.prems by (auto dest: render_Inr)
  qed
qed

lemma no_transition_from_success:
  assumes "reachable P s" "step s = Success"
  shows "\<not> transition P s s'"
proof
  assume "transition P s s'"
  then show False
  proof (cases rule: transition.cases)
    case (press cs c)
    then show ?thesis using assms(2) by (auto dest: render_Inr)
  next
    case order_placed
    then show ?thesis using success_not_placing [OF assms] by simp
  next
    case (edit cs)
    then show ?thesis using assms(2) by (auto dest: render_Inr)
  qed
qed

text \<open>A transition that changes the step to one before success does not start at success.\<close>

lemma back_transition:
  assumes "transition P s s'" "step s' \<noteq> step s" "step s' \<noteq> Success"
  shows "step s \<noteq> Success"
  using assms by (cases rule: transition.cases) (auto dest: render_Inr simp: handlePlaceOrder_resume_def)

text \<open>
  Claim C9 states that \<open>goBack\<close> moves to the preceding step and that the only
  transition available from success returns to cart. The component of the success step
  declares the Continue shopping button, whose handler sets the step to cart, next to an
  element \<^verbatim>\<open>ShoppingBasket\<close> that the module neither imports nor declares: in the
  state reached by placing the order from the review step the render throws, no control
  is mounted, and the transition to cart does not exist.
\<close>

theorem success_step_unrenderable:
  "reachable default_props (handlePlaceOrder_resume (handlePlaceOrder_begin (initial_checkout\<lparr>step := Review\<rparr>))) \<and>
   step (handlePlaceOrder_resume (handlePlaceOrder_begin (initial_checkout\<lparr>step := Review\<rparr>))) = Success \<and>
   controls Success = [ContinueShopping] \<and>
   click default_props ContinueShopping (handlePlaceOrder_resume (handlePlaceOrder_begin (initial_checkout\<lparr>step := Review\<rparr>))) =
     Some (initial_checkout\<lparr>cart := []\<rparr>) \<and>
   render Success = Inl (ReferenceError ''ShoppingBasket'') \<and>
   \<not> transition default_props
         (handlePlaceOrder_resume (handlePlaceOrder_begin (initial_checkout\<lparr>step := Review\<rparr>)))
         (initial_checkout\<lparr>cart := []\<rparr>)"
proof -
  let ?r = "initial_checkout\<lparr>step := Review\<rparr>"
  let ?s = "handlePlaceOrder_resume (handlePlaceOrder_begin ?r)"
  have r0: "reachable default_props ?r"
    by (rule reachable.start) (simp add: initial_checkout_def)
  have rr: "render (step ?r) = Inr (controls Review)" by (simp add: render_other)
  have t1: "transition default_props ?r (handlePlaceOrder_begin ?r)"
    by (rule transition.press [OF rr, where c = PlaceOrder])
       (simp_all add: controls_def click_def initial_checkout_def DEFAULT_ITEMS_def)
  have t2: "transition default_props (handlePlaceOrder_begin ?r) ?s"
    by (rule transition.order_placed) (simp add: handlePlaceOrder_begin_def)
  have rs: "reachable default_props ?s"
    using r0 t1 t2 by (blast intro: reachable.move)
  have st: "step ?s = Success" by (simp add: handlePlaceOrder_resume_def)
  have c: "controls Success = [ContinueShopping]" by (simp add: controls_def)
  have k: "click default_props ContinueShopping ?s = Some (initial_checkout\<lparr>cart := []\<rparr>)"
    by (simp add: click_def handlePlaceOrder_resume_def handlePlaceOrder_begin_def initial_checkout_def)
  have n: "\<not> transition default_props ?s (initial_checkout\<lparr>cart := []\<rparr>)"
    using rs st by (rule no_transition_from_success)
  from rs st c k render_Success n show ?thesis by blast
qed

subsection \<open>Stock gating in the catalog\<close>

text \<open>
  The add-to-cart gate accepts exactly the products the availability predicate holds
  for. The in-stock-only filter keeps these and, in addition, every product without an
  inventory count that is not flagged out of stock.
\<close>

lemma gate_accepts_iff: "snd (catalog_handleAddToCart p) = Some p \<longleftrightarrow> availability_spec p"
  by (auto simp: catalog_handleAddToCart_def availability_spec_def split: option.splits)

lemma filter_keeps_iff:
  "inStockFilter p \<longleftrightarrow> availability_spec p \<or> (inStock p \<noteq> Some False \<and> inventoryCount p = None)"
  by (auto simp: inStockFilter_def availability_spec_def split: option.splits)

text \<open>
  Claim C4 states that the in-stock-only filter and the add-to-cart gate accept the same
  products, those of the availability predicate, also when the inventory count is
  absent. For a product with no inventory count the filter keeps it (its default count
  is 1) and the gate rejects it as out of stock (its default count is 0).
\<close>

theorem in_stock_sites_differ:
  "inStockFilter gift_card \<and>
   map prod_id (catalog_list (\<lambda>name. 0 :: nat) [gift_card] (initial_catalog\<lparr>onlyInStock := True\<rparr>)) = [''p-006''] \<and>
   catalog_handleAddToCart gift_card = ([OutOfStock], None) \<and>
   \<not> availability_spec gift_card"
  by (simp add: inStockFilter_def catalog_list_def catalog_handleAddToCart_def availability_spec_def
        gift_card_def initial_catalog_def trim_def)

subsection \<open>Pagination\<close>

lemma length_sort_key_desc: "length (sort_key_desc f xs) = length xs"
  by (simp add: sort_key_desc_def)

lemma length_catalog_list: "length (catalog_list localeKey products c) \<le> length products"
proof -
  have f: "length (filter P xs) \<le> length xs" for P and xs :: "CatalogProduct list" by simp
  show ?thesis
    unfolding catalog_list_def Let_def
    by (cases "sort_option c") (auto simp: length_sort_key_desc intro: le_trans [OF f] le_trans [OF f le_trans [OF f]] )
qed

lemma length_slice_le: "0 \<le> n \<Longrightarrow> int (length (slice xs a (a + n))) \<le> n"
  by (auto simp: slice_def Let_def min_def max_def)

lemma slice_all: "int (length xs) \<le> n \<Longrightarrow> slice xs 0 n = xs"
  by (auto simp: slice_def Let_def min_def)

lemma totalPages_one:
  assumes "1 \<le> ps" "n \<le> ps" "0 \<le> n"
  shows "max 1 \<lceil>(of_int n :: rat) / of_int ps\<rceil> = 1"
proof -
  have "(of_int n :: rat) / of_int ps \<le> 1" using assms by (simp add: divide_le_eq)
  then have "\<lceil>(of_int n :: rat) / of_int ps\<rceil> \<le> 1" by (simp add: ceiling_le_iff)
  then show ?thesis by simp
qed

text \<open>
  Claim C5. For every product list, every setting of the filters and the sort, every page
  size of at least 1 and every remembered page: the query has a result; its total is the
  length of the filtered list; the number of pages is the larger of 1 and the ceiling of
  total by page size; the current page is the smaller of the remembered page and the
  number of pages, so never above the remembered page; the items are at most a page
  size many; and when the total is at most the page size the items are the whole
  filtered list. The last part is for a remembered page of at least 1, which is what the
  component remembers (\<open>page_click_ge1\<close> below; the page starts at 1).
\<close>

theorem computed_page:
  assumes "1 \<le> pageSize c"
  shows "\<exists>r. computed localeKey products c = Some r \<and>
           r_total r = int (length (catalog_list localeKey products c)) \<and>
           r_totalPages r = max 1 \<lceil>(of_int (r_total r) :: rat) / of_int (pageSize c)\<rceil> \<and>
           r_currentPage r = min (page c) (r_totalPages r) \<and>
           r_currentPage r \<le> page c \<and>
           int (length (r_items r)) \<le> pageSize c \<and>
           (1 \<le> page c \<and> r_total r \<le> pageSize c \<longrightarrow>
              r_items r = catalog_list localeKey products c \<and> int (length (r_items r)) = r_total r)"
proof -
  let ?list = "catalog_list localeKey products c"
  let ?total = "int (length ?list)"
  let ?tp = "max 1 \<lceil>(of_int ?total :: rat) / of_int (pageSize c)\<rceil>"
  let ?cp = "min (page c) ?tp"
  let ?start = "(?cp - 1) * pageSize c"
  let ?r = "\<lparr>r_total = ?total, r_totalPages = ?tp, r_currentPage = ?cp,
            r_items = slice ?list ?start (?start + pageSize c)\<rparr>"
  have ps: "pageSize c \<noteq> 0" "0 \<le> pageSize c" using assms by simp_all
  have c: "computed localeKey products c = Some ?r"
    using ps(1) by (simp add: computed_def Let_def)
  have len: "int (length (r_items ?r)) \<le> pageSize c"
    using length_slice_le [OF ps(2)] by simp
  have all: "r_items ?r = ?list" if "1 \<le> page c" "?total \<le> pageSize c"
  proof -
    have "?tp = 1" using assms that(2) by (intro totalPages_one) simp_all
    then have "?cp = 1" using that(1) by simp
    then have "r_items ?r = slice ?list 0 (pageSize c)" by simp
    then show ?thesis using that(2) by (simp add: slice_all)
  qed
  show ?thesis
    apply (rule exI [of _ ?r])
    using c len all by simp
qed

text \<open>The theorem at two products, one per page, with page 3 remembered.\<close>

theorem computed_page_witness:
  "1 \<le> pageSize (initial_catalog\<lparr>pageSize := 1, page := 3\<rparr>) \<and>
   (\<exists>r. computed (\<lambda>name. 0 :: nat) [everyday_tote, gift_card] (initial_catalog\<lparr>pageSize := 1, page := 3\<rparr>) = Some r \<and>
        r_total r = 2 \<and> r_totalPages r = 2 \<and> r_currentPage r = 2 \<and>
        r_currentPage r \<le> page (initial_catalog\<lparr>pageSize := 1, page := 3\<rparr>) \<and>
        int (length (r_items r)) \<le> pageSize (initial_catalog\<lparr>pageSize := 1, page := 3\<rparr>)) \<and>
   1 \<le> pageSize (initial_catalog\<lparr>onlyInStock := True\<rparr>) \<and>
   1 \<le> page (initial_catalog\<lparr>onlyInStock := True\<rparr>) \<and>
   (\<exists>r. computed (\<lambda>name. 0 :: nat) [everyday_tote, gift_card] (initial_catalog\<lparr>onlyInStock := True\<rparr>) = Some r \<and>
        r_total r = 2 \<and> r_total r \<le> pageSize (initial_catalog\<lparr>onlyInStock := True\<rparr>) \<and>
        r_items r = [everyday_tote, gift_card])"
proof -
  let ?c = "initial_catalog\<lparr>pageSize := 1, page := 3\<rparr>"
  let ?d = "initial_catalog\<lparr>onlyInStock := True\<rparr>"
  have h: "1 \<le> pageSize ?c" by simp
  have v: "computed (\<lambda>name. 0 :: nat) [everyday_tote, gift_card] ?c =
             Some \<lparr>r_total = 2, r_totalPages = 2, r_currentPage = 2, r_items = [gift_card]\<rparr>"
    by code_simp
  from computed_page [OF h, of "\<lambda>name. 0 :: nat" "[everyday_tote, gift_card]"]
  obtain r where r: "computed (\<lambda>name. 0 :: nat) [everyday_tote, gift_card] ?c = Some r"
    and b: "r_currentPage r \<le> page ?c" "int (length (r_items r)) \<le> pageSize ?c"
    by blast
  from r v have "r = \<lparr>r_total = 2, r_totalPages = 2, r_currentPage = 2, r_items = [gift_card]\<rparr>"
    by simp
  then have "r_total r = 2" "r_totalPages r = 2" "r_currentPage r = 2" by simp_all
  with r b have first: "\<exists>r. computed (\<lambda>name. 0 :: nat) [everyday_tote, gift_card] ?c = Some r \<and>
        r_total r = 2 \<and> r_totalPages r = 2 \<and> r_currentPage r = 2 \<and>
        r_currentPage r \<le> page ?c \<and> int (length (r_items r)) \<le> pageSize ?c"
    by blast
  have g: "1 \<le> pageSize ?d" "1 \<le> page ?d" by (simp_all add: initial_catalog_def)
  have l: "catalog_list (\<lambda>name. 0 :: nat) [everyday_tote, gift_card] ?d = [everyday_tote, gift_card]"
    by code_simp
  have ps: "pageSize ?d = 12" by (simp add: initial_catalog_def)
  from computed_page [OF g(1), of "\<lambda>name. 0 :: nat" "[everyday_tote, gift_card]"]
  obtain q where q: "computed (\<lambda>name. 0 :: nat) [everyday_tote, gift_card] ?d = Some q"
    and t: "r_total q = int (length (catalog_list (\<lambda>name. 0 :: nat) [everyday_tote, gift_card] ?d))"
    and w: "1 \<le> page ?d \<and> r_total q \<le> pageSize ?d \<longrightarrow>
              r_items q = catalog_list (\<lambda>name. 0 :: nat) [everyday_tote, gift_card] ?d"
    by blast
  from t have t2: "r_total q = 2" unfolding l by simp
  then have le: "r_total q \<le> pageSize ?d" unfolding ps by simp
  from w g(2) le have "r_items q = [everyday_tote, gift_card]" unfolding l by blast
  with q t2 le have second: "\<exists>r. computed (\<lambda>name. 0 :: nat) [everyday_tote, gift_card] ?d = Some r \<and>
        r_total r = 2 \<and> r_total r \<le> pageSize ?d \<and> r_items r = [everyday_tote, gift_card]"
    by blast
  from h first g second show ?thesis by blast
qed

text \<open>The page controls keep the remembered page at 1 or above.\<close>

lemma page_click_ge1:
  assumes "1 \<le> page c"
  shows "1 \<le> page (page_click localeKey products ctl c)"
  using assms
  by (auto simp: page_click_def computed_def Let_def split: option.splits page_control.splits if_splits)

subsection \<open>Adding to the cart of the page\<close>

lemma find_at_index:
  "distinct (map f xs) \<Longrightarrow> k < length xs \<Longrightarrow> find (\<lambda>y. f y = f (xs ! k)) xs = Some (xs ! k)"
  by (rule find_distinct_key) simp_all

lemma map_at_index:
  "distinct (map f xs) \<Longrightarrow> k < length xs \<Longrightarrow>
   map (\<lambda>y. if f y = f (xs ! k) then g y else y) xs = xs[k := g (xs ! k)]"
  by (rule nth_equalityI) (auto simp: nth_list_update nth_eq_iff_index_eq distinct_conv_nth)

lemma find_None_ids: "find (\<lambda>i. item_id i = x) prev = None \<longleftrightarrow> x \<notin> item_id ` set prev"
  by (auto simp: find_None_iff)

text \<open>
  An add keeps the ids of the lines, or appends the id of the product; so the lines of
  the page's cart have distinct ids.
\<close>

lemma page_handleAddToCart_ids:
  "map item_id (page_handleAddToCart p prev) =
     (if prod_id p \<in> item_id ` set prev then map item_id prev else map item_id prev @ [prod_id p])"
proof (cases "find (\<lambda>i. item_id i = prod_id p) prev")
  case None
  then have "prod_id p \<notin> item_id ` set prev" by (simp add: find_None_ids)
  then show ?thesis by (simp add: page_handleAddToCart_def None)
next
  case (Some existing)
  then have "prod_id p \<in> item_id ` set prev" using find_None_ids [of "prod_id p" prev] by auto
  with Some show ?thesis
    by (auto simp: page_handleAddToCart_def Let_def intro!: map_cong)
qed

lemma page_handleAddToCart_distinct:
  "distinct (map item_id prev) \<Longrightarrow> distinct (map item_id (page_handleAddToCart p prev))"
  by (simp add: page_handleAddToCart_ids)

lemma page_adds_snoc: "page_adds (ps @ [p]) = page_handleAddToCart p (page_adds ps)"
  by (simp add: page_adds_def)

lemma page_adds_distinct: "distinct (map item_id (page_adds ps))"
proof (induction ps rule: rev_induct)
  case Nil
  show ?case by (simp add: page_adds_def)
next
  case (snoc p ps)
  then show ?case by (simp add: page_adds_snoc page_handleAddToCart_distinct)
qed

lemma add_existing:
  assumes d: "distinct (map item_id prev)" and k: "k < length prev"
    and i: "item_id (prev ! k) = prod_id p"
  shows "page_handleAddToCart p prev =
           prev[k := (prev ! k)\<lparr>quantity :=
                  min (quantity (prev ! k) + 1)
                      (case inventoryCount p of Some n \<Rightarrow> n | None \<Rightarrow> stock (prev ! k))\<rparr>]"
proof -
  have f: "find (\<lambda>y. item_id y = prod_id p) prev = Some (prev ! k)"
    using find_at_index [OF d k] by (simp add: i)
  have m: "map (\<lambda>y. if item_id y = prod_id p then g y else y) prev = prev[k := g (prev ! k)]" for g
    using map_at_index [OF d k, of g] by (simp add: i)
  show ?thesis by (simp add: page_handleAddToCart_def f Let_def m)
qed

lemma add_new:
  assumes "prod_id p \<notin> item_id ` set prev"
  shows "\<exists>line. page_handleAddToCart p prev = prev @ [line] \<and> item_id line = prod_id p \<and>
           quantity line = 1 \<and> stock line = (case inventoryCount p of Some n \<Rightarrow> n | None \<Rightarrow> 10)"
proof -
  from assms have "find (\<lambda>i. item_id i = prod_id p) prev = None" by (simp add: find_None_ids)
  then show ?thesis by (simp add: page_handleAddToCart_def)
qed

text \<open>
  The stock recorded in a line is the inventory count (or the default 10) of a product
  that was added under the line's id.
\<close>

lemma page_adds_recorded_stock:
  "line \<in> set (page_adds ps) \<Longrightarrow>
   \<exists>q\<in>set ps. prod_id q = item_id line \<and>
               stock line = (case inventoryCount q of Some n \<Rightarrow> n | None \<Rightarrow> 10)"
proof (induction ps arbitrary: line rule: rev_induct)
  case Nil
  then show ?case by (simp add: page_adds_def)
next
  case (snoc p ps)
  show ?case
  proof (cases "find (\<lambda>i. item_id i = prod_id p) (page_adds ps)")
    case None
    with snoc.prems have "line \<in> set (page_adds ps) \<or>
        (item_id line = prod_id p \<and> stock line = (case inventoryCount p of Some n \<Rightarrow> n | None \<Rightarrow> 10))"
      by (auto simp: page_adds_snoc page_handleAddToCart_def)
    then show ?thesis using snoc.IH by auto
  next
    case (Some existing)
    with snoc.prems obtain l0 where "l0 \<in> set (page_adds ps)" "item_id line = item_id l0" "stock line = stock l0"
      by (auto simp: page_adds_snoc page_handleAddToCart_def Let_def split: if_splits)
    then show ?thesis using snoc.IH [of l0] by auto
  qed
qed

text \<open>
  The products of the page's list have distinct ids and each has an inventory count; so
  after adds of products of the list, the stock recorded in a line is the count of the
  product of the list with the line's id.
\<close>

lemma products_distinct: "distinct (map prod_id page_products)"
  by (simp add: page_products_def bridge_tee_def everyday_tote_def canvas_backpack_def
        merino_socks_def cotton_hoodie_def)

lemma products_counted: "p \<in> set page_products \<Longrightarrow> \<exists>n. inventoryCount p = Some n"
  by (auto simp: page_products_def bridge_tee_def everyday_tote_def canvas_backpack_def
        merino_socks_def cotton_hoodie_def)

lemma products_same_id:
  assumes "p \<in> set page_products" "q \<in> set page_products" "prod_id p = prod_id q"
  shows "p = q"
  using assms products_distinct by (meson distinct_map inj_on_def)

lemma page_static_stock:
  assumes "set ps \<subseteq> set page_products" "p \<in> set page_products" "k < length (page_adds ps)"
    and "item_id (page_adds ps ! k) = prod_id p"
  shows "inventoryCount p = Some (stock (page_adds ps ! k))"
proof -
  from assms(3) have "page_adds ps ! k \<in> set (page_adds ps)" by simp
  from page_adds_recorded_stock [OF this]
  obtain q where q: "q \<in> set ps" "prod_id q = item_id (page_adds ps ! k)"
    "stock (page_adds ps ! k) = (case inventoryCount q of Some n \<Rightarrow> n | None \<Rightarrow> 10)"
    by blast
  from q(1) assms(1) have "q \<in> set page_products" by blast
  with q(2) assms(2,4) have "q = p" by (intro products_same_id) simp_all
  with q(3) products_counted [OF assms(2)] show ?thesis by auto
qed

text \<open>
  Claim C10 states that repeated adds never push the quantity of a line above the stock
  recorded in it. The handler caps the quantity at the inventory count of the product
  it is given and uses the recorded stock only when that count is absent: an add of the
  tote with count 1 and then of the tote with count 9 leaves quantity 2 in a line whose
  recorded stock is 1.
\<close>

theorem page_add_counterexample:
  "item_id (page_adds [everyday_tote\<lparr>inventoryCount := Some 1\<rparr>] ! 0) =
     prod_id (everyday_tote\<lparr>inventoryCount := Some 9\<rparr>) \<and>
   quantity (page_handleAddToCart (everyday_tote\<lparr>inventoryCount := Some 9\<rparr>)
               (page_adds [everyday_tote\<lparr>inventoryCount := Some 1\<rparr>]) ! 0) = 2 \<and>
   stock (page_handleAddToCart (everyday_tote\<lparr>inventoryCount := Some 9\<rparr>)
               (page_adds [everyday_tote\<lparr>inventoryCount := Some 1\<rparr>]) ! 0) = 1 \<and>
   \<not> quantity (page_handleAddToCart (everyday_tote\<lparr>inventoryCount := Some 9\<rparr>)
               (page_adds [everyday_tote\<lparr>inventoryCount := Some 1\<rparr>]) ! 0) \<le>
     stock (page_handleAddToCart (everyday_tote\<lparr>inventoryCount := Some 9\<rparr>)
               (page_adds [everyday_tote\<lparr>inventoryCount := Some 1\<rparr>]) ! 0)"
  by code_simp

text \<open>
  Claim C10, amended. In the cart of the page, after any sequence of adds: adding a
  product that is already in the cart changes only the quantity of its line, to the
  smaller of the previous quantity plus 1 and the stock, where the stock is the
  inventory count of the product or, when that is absent, the stock recorded in the
  line; so the new quantity is at most that stock. It is at most the stock recorded in
  the line whenever the product's count is absent or equal to the recorded stock, and
  this is so after every sequence of adds of products of the page's product list.
  Adding a product that is not in the cart appends one line, with quantity 1.
\<close>

theorem page_add_to_cart:
  assumes "prev = page_adds ps"
  shows "(\<forall>k<length prev. item_id (prev ! k) = prod_id p \<longrightarrow>
            page_handleAddToCart p prev =
              prev[k := (prev ! k)\<lparr>quantity :=
                     min (quantity (prev ! k) + 1)
                         (case inventoryCount p of Some n \<Rightarrow> n | None \<Rightarrow> stock (prev ! k))\<rparr>] \<and>
            quantity (page_handleAddToCart p prev ! k) \<le>
              (case inventoryCount p of Some n \<Rightarrow> n | None \<Rightarrow> stock (prev ! k)) \<and>
            (inventoryCount p = None \<or> inventoryCount p = Some (stock (prev ! k)) \<longrightarrow>
               quantity (page_handleAddToCart p prev ! k) \<le> stock (page_handleAddToCart p prev ! k)) \<and>
            (set ps \<subseteq> set page_products \<and> p \<in> set page_products \<longrightarrow>
               quantity (page_handleAddToCart p prev ! k) \<le> stock (page_handleAddToCart p prev ! k))) \<and>
         (prod_id p \<notin> item_id ` set prev \<longrightarrow>
            (\<exists>line. page_handleAddToCart p prev = prev @ [line] \<and> item_id line = prod_id p \<and>
               quantity line = 1 \<and>
               stock line = (case inventoryCount p of Some n \<Rightarrow> n | None \<Rightarrow> 10)))"
proof (intro conjI allI impI)
  fix k assume k: "k < length prev" and i: "item_id (prev ! k) = prod_id p"
  have d: "distinct (map item_id prev)" unfolding assms by (rule page_adds_distinct)
  let ?st = "case inventoryCount p of Some n \<Rightarrow> n | None \<Rightarrow> stock (prev ! k)"
  show e: "page_handleAddToCart p prev =
      prev[k := (prev ! k)\<lparr>quantity := min (quantity (prev ! k) + 1) ?st\<rparr>]"
    using d k i by (rule add_existing)
  show q: "quantity (page_handleAddToCart p prev ! k) \<le> ?st"
    unfolding e using k by simp
  have same: "quantity (page_handleAddToCart p prev ! k) \<le> stock (page_handleAddToCart p prev ! k)"
    if "inventoryCount p = None \<or> inventoryCount p = Some (stock (prev ! k))"
  proof -
    from that have "?st = stock (prev ! k)" by auto
    moreover have "stock (page_handleAddToCart p prev ! k) = stock (prev ! k)"
      unfolding e using k by simp
    ultimately show ?thesis using q by simp
  qed
  {
    assume "inventoryCount p = None \<or> inventoryCount p = Some (stock (prev ! k))"
    then show "quantity (page_handleAddToCart p prev ! k) \<le> stock (page_handleAddToCart p prev ! k)"
      by (rule same)
  }
  {
    assume "set ps \<subseteq> set page_products \<and> p \<in> set page_products"
    then have "inventoryCount p = Some (stock (prev ! k))"
      using k i unfolding assms by (intro page_static_stock) simp_all
    then show "quantity (page_handleAddToCart p prev ! k) \<le> stock (page_handleAddToCart p prev ! k)"
      by (intro same) simp
  }
next
  assume "prod_id p \<notin> item_id ` set prev"
  then show "\<exists>line. page_handleAddToCart p prev = prev @ [line] \<and> item_id line = prod_id p \<and>
               quantity line = 1 \<and>
               stock line = (case inventoryCount p of Some n \<Rightarrow> n | None \<Rightarrow> 10)"
    by (rule add_new)
qed

text \<open>
  The theorem after five adds of the tote of the list (inventory count 5), for a sixth
  add and for a product that is not in the cart.
\<close>

theorem page_add_to_cart_witness:
  "0 < length (page_adds [everyday_tote, everyday_tote, everyday_tote, everyday_tote, everyday_tote]) \<and>
   item_id (page_adds [everyday_tote, everyday_tote, everyday_tote, everyday_tote, everyday_tote] ! 0) = prod_id everyday_tote \<and>
   quantity (page_adds [everyday_tote, everyday_tote, everyday_tote, everyday_tote, everyday_tote] ! 0) = 5 \<and>
   quantity (page_handleAddToCart everyday_tote
               (page_adds [everyday_tote, everyday_tote, everyday_tote, everyday_tote, everyday_tote]) ! 0) \<le> 5 \<and>
   prod_id gift_card \<notin> item_id ` set (page_adds [everyday_tote, everyday_tote, everyday_tote, everyday_tote, everyday_tote]) \<and>
   (\<exists>line. page_handleAddToCart gift_card
              (page_adds [everyday_tote, everyday_tote, everyday_tote, everyday_tote, everyday_tote]) =
            page_adds [everyday_tote, everyday_tote, everyday_tote, everyday_tote, everyday_tote] @ [line] \<and>
            quantity line = 1) \<and>
   (inventoryCount everyday_tote = None \<or>
    inventoryCount everyday_tote =
      Some (stock (page_adds [everyday_tote, everyday_tote, everyday_tote, everyday_tote, everyday_tote] ! 0))) \<and>
   set [everyday_tote, everyday_tote, everyday_tote, everyday_tote, everyday_tote] \<subseteq> set page_products \<and>
   everyday_tote \<in> set page_products \<and>
   quantity (page_handleAddToCart everyday_tote
               (page_adds [everyday_tote, everyday_tote, everyday_tote, everyday_tote, everyday_tote]) ! 0) \<le>
   stock (page_handleAddToCart everyday_tote
               (page_adds [everyday_tote, everyday_tote, everyday_tote, everyday_tote, everyday_tote]) ! 0)"
proof -
  let ?ps = "[everyday_tote, everyday_tote, everyday_tote, everyday_tote, everyday_tote]"
  let ?prev = "page_adds ?ps"
  have v: "?prev =
     [\<lparr>item_id = ''p-002'', item_name = ''Everyday Tote'', item_price = 52,
       item_image = ''https://images.unsplash.com/photo-1587397845856-e6cf49176c70?q=80&w=1600&auto=format&fit=crop'',
       quantity = 5, stock = 5, subtitle = Some ''Bridge''\<rparr>]"
    by code_simp
  have h1: "0 < length ?prev" unfolding v by simp
  have h2: "item_id (?prev ! 0) = prod_id everyday_tote" unfolding v by (simp add: everyday_tote_def)
  have h3: "prod_id gift_card \<notin> item_id ` set ?prev" unfolding v by (simp add: gift_card_def)
  have q: "quantity (?prev ! 0) = 5" unfolding v by simp
  have c: "(case inventoryCount everyday_tote of Some n \<Rightarrow> n | None \<Rightarrow> stock (?prev ! 0)) = 5"
    by (simp add: everyday_tote_def)
  have h4: "inventoryCount everyday_tote = None \<or> inventoryCount everyday_tote = Some (stock (?prev ! 0))"
    unfolding v by (simp add: everyday_tote_def)
  have h5: "set ?ps \<subseteq> set page_products" "everyday_tote \<in> set page_products" by (simp_all add: page_products_def)
  note t = page_add_to_cart [OF refl, of ?ps everyday_tote]
  from t h1 h2
  have "quantity (page_handleAddToCart everyday_tote ?prev ! 0) \<le>
          (case inventoryCount everyday_tote of Some n \<Rightarrow> n | None \<Rightarrow> stock (?prev ! 0))"
    by blast
  then have a: "quantity (page_handleAddToCart everyday_tote ?prev ! 0) \<le> 5" by (simp only: c)
  from t h1 h2 h5
  have c2: "quantity (page_handleAddToCart everyday_tote ?prev ! 0) \<le> stock (page_handleAddToCart everyday_tote ?prev ! 0)"
    by blast
  from page_add_to_cart [OF refl, of ?ps gift_card] h3
  have b: "\<exists>line. page_handleAddToCart gift_card ?prev = ?prev @ [line] \<and> quantity line = 1"
    by blast
  from h1 h2 q a h3 b h4 h5 c2 show ?thesis by blast
qed

end
